theory Spec2Isabelle
  imports Main "HOL-Library.Sublist"
begin

section \<open>Python strings\<close>

text \<open>
  A Python \<^verbatim>\<open>str\<close> is modelled as a \<^typ>\<open>string\<close>, one \<^typ>\<open>char\<close> per code point
  (code points 0 to 255). \<^verbatim>\<open>str.lower()\<close> maps the upper-case letters of that range
  (A to Z, and U+00C0 to U+00DE without the multiplication sign U+00D7) to the letter 32
  code points later, and leaves every other character alone.
\<close>

definition lower_char :: "char \<Rightarrow> char" where
  "lower_char c =
     (let n = (of_char c :: nat)
      in if (65 \<le> n \<and> n \<le> 90) \<or> (192 \<le> n \<and> n \<le> 214) \<or> (216 \<le> n \<and> n \<le> 222)
         then char_of (n + 32) else c)"

definition lower :: "string \<Rightarrow> string" where
  "lower s = map lower_char s"

text \<open>\<^verbatim>\<open>sub in s\<close>: \<open>sub\<close> occurs in \<open>s\<close> as a contiguous substring.\<close>

fun contains :: "string \<Rightarrow> string \<Rightarrow> bool" where
  "contains sub [] = (sub = [])"
| "contains sub (c # cs) = (prefix sub (c # cs) \<or> contains sub cs)"

section \<open>models.py: the concept extractor\<close>

text \<open>
  \<^verbatim>\<open>CONCEPT_KEYWORDS\<close> is a dict literal; Python dicts iterate in insertion order, so
  the table is an association list in declaration order.
\<close>

definition CONCEPT_KEYWORDS :: "(string \<times> string list) list" where
  "CONCEPT_KEYWORDS =
   [(''Threat Intelligence'',
      [''IOC'', ''indicator of compromise'', ''threat feed'', ''STIX'', ''TAXII'',
       ''threat actor'', ''APT'', ''advanced persistent threat'', ''TTP'',
       ''tactics techniques procedures'', ''campaign'', ''threat hunting'']),
    (''Cryptography'',
      [''hash'', ''hashing'', ''MD5'', ''SHA'', ''SHA-256'', ''SHA-1'',
       ''encryption'', ''decryption'', ''AES'', ''RSA'', ''symmetric'', ''asymmetric'',
       ''public key'', ''private key'', ''certificate'', ''TLS'', ''SSL'', ''PKI'',
       ''digital signature'', ''cipher'', ''plaintext'', ''ciphertext'']),
    (''Network Security'',
      [''firewall'', ''IDS'', ''IPS'', ''intrusion detection'', ''intrusion prevention'',
       ''VPN'', ''proxy'', ''DMZ'', ''network segmentation'', ''VLAN'',
       ''packet'', ''protocol'', ''TCP'', ''UDP'', ''IP address'', ''port'',
       ''DNS'', ''DHCP'', ''NAT'', ''router'', ''switch'']),
    (''Malware'',
      [''malware'', ''virus'', ''worm'', ''trojan'', ''ransomware'', ''spyware'',
       ''adware'', ''rootkit'', ''botnet'', ''backdoor'', ''keylogger'',
       ''payload'', ''exploit'', ''zero-day'', ''0day'']),
    (''Authentication'',
      [''authentication'', ''authorization'', ''MFA'', ''2FA'', ''multi-factor'',
       ''password'', ''credential'', ''SSO'', ''single sign-on'', ''OAuth'',
       ''SAML'', ''token'', ''session'', ''identity'', ''IAM'', ''RBAC'']),
    (''Frameworks & Standards'',
      [''NIST'', ''MITRE ATT&CK'', ''ATT&CK'', ''ISO 27001'', ''CIS Controls'',
       ''SOC 2'', ''PCI DSS'', ''HIPAA'', ''GDPR'', ''compliance'',
       ''framework'', ''standard'', ''policy'', ''procedure'', ''control'']),
    (''Incident Response'',
      [''incident response'', ''IR'', ''forensics'', ''DFIR'', ''triage'',
       ''containment'', ''eradication'', ''recovery'', ''lessons learned'',
       ''playbook'', ''SIEM'', ''SOC'', ''security operations'', ''alert'']),
    (''Vulnerabilities'',
      [''vulnerability'', ''CVE'', ''patch'', ''exploit'', ''buffer overflow'',
       ''SQL injection'', ''XSS'', ''cross-site scripting'', ''CSRF'',
       ''RCE'', ''remote code execution'', ''privilege escalation'',
       ''OWASP'', ''penetration testing'', ''pentest'', ''bug bounty'']),
    (''Cloud Security'',
      [''cloud security'', ''AWS'', ''Azure'', ''GCP'', ''S3 bucket'',
       ''IAM policy'', ''security group'', ''container'', ''Docker'', ''Kubernetes'',
       ''serverless'', ''shared responsibility'', ''cloud native'']),
    (''Social Engineering'',
      [''phishing'', ''spear phishing'', ''vishing'', ''smishing'', ''pretexting'',
       ''social engineering'', ''baiting'', ''tailgating'', ''impersonation'',
       ''business email compromise'', ''BEC''])]"

text \<open>The table read in iteration order, as \<^verbatim>\<open>(keyword, category)\<close> pairs.\<close>

definition table_pairs :: "(string \<times> string list) list \<Rightarrow> (string \<times> string) list" where
  "table_pairs table =
     concat (map (\<lambda>(category, keywords). map (\<lambda>keyword. (keyword, category)) keywords) table)"

text \<open>
  The first loop of \<^verbatim>\<open>extract_concepts\<close>: for each category in table order and each
  keyword in list order, \<^verbatim>\<open>(keyword, category)\<close> is appended to \<^verbatim>\<open>found\<close> when the
  lower-cased keyword occurs in the lower-cased text.
\<close>

definition found_keywords :: "string \<Rightarrow> string \<Rightarrow> string list \<Rightarrow> (string \<times> string) list" where
  "found_keywords text_lower category keywords =
     map (\<lambda>keyword. (keyword, category))
         (filter (\<lambda>keyword. contains (lower keyword) text_lower) keywords)"

definition found_all :: "(string \<times> string list) list \<Rightarrow> string \<Rightarrow> (string \<times> string) list" where
  "found_all table text_lower =
     concat (map (\<lambda>(category, keywords). found_keywords text_lower category keywords) table)"

text \<open>
  The second loop: an item is kept when its lower-cased name is not yet in \<^verbatim>\<open>seen\<close>;
  the name is then added to \<^verbatim>\<open>seen\<close>.
\<close>

fun unique_from :: "string set \<Rightarrow> (string \<times> string) list \<Rightarrow> (string \<times> string) list" where
  "unique_from seen [] = []"
| "unique_from seen (item # items) =
     (if lower (fst item) \<notin> seen
      then item # unique_from (insert (lower (fst item)) seen) items
      else unique_from seen items)"

definition extract_concepts :: "string \<Rightarrow> (string \<times> string) list" where
  "extract_concepts text = unique_from {} (found_all CONCEPT_KEYWORDS (lower text))"

section \<open>database.py: the concept store\<close>

text \<open>
  The SQLite tables are lists of rows, in insertion order. \<^verbatim>\<open>AUTOINCREMENT\<close> gives a
  new row the id after the largest one handed out so far, kept in \<open>concepts_seq\<close> (and
  likewise for the other tables). A timestamp is a natural number; the reading of
  \<^verbatim>\<open>datetime.now()\<close> or \<^verbatim>\<open>CURRENT_TIMESTAMP\<close> is the argument \<open>now\<close> of each operation.
  The column \<^verbatim>\<open>id\<close> is the field \<open>row_id\<close>.
\<close>

record concept_row =
  row_id :: nat
  name :: string
  category :: "string option"
  first_seen_at :: nat
  times_discussed :: int
  understanding_level :: int
  last_reviewed_at :: "nat option"

record message_row =
  message_id :: nat
  message_session_id :: nat
  role :: string
  content :: string
  created_at :: nat

record mention_row =
  mention_id :: nat
  mention_concept_id :: nat
  mention_message_id :: nat
  mention_session_id :: nat
  mentioned_at :: nat

record database =
  concepts_table :: "concept_row list"
  concepts_seq :: nat
  messages_table :: "message_row list"
  messages_seq :: nat
  mentions_table :: "mention_row list"
  mentions_seq :: nat

text \<open>
  The exceptions that the modelled code lets escape. An SQLite \<^verbatim>\<open>INTEGER\<close> is a signed
  64-bit integer: binding a Python \<^verbatim>\<open>int\<close> outside that range raises \<^verbatim>\<open>OverflowError\<close>
  before the statement runs, and an \<^verbatim>\<open>AUTOINCREMENT\<close> table that has handed out the
  largest id refuses the \<^verbatim>\<open>INSERT\<close> (\<^verbatim>\<open>SQLITE_FULL\<close>), which \<^verbatim>\<open>sqlite3\<close> raises as
  \<^verbatim>\<open>OperationalError\<close>. An operation that raises stores nothing and returns the error.
\<close>

datatype py_error = IndexError | KeyError | OverflowError | OperationalError

definition sqlite_max_integer :: int where
  "sqlite_max_integer = 9223372036854775807"

definition sqlite_integer :: "int \<Rightarrow> bool" where
  "sqlite_integer i \<longleftrightarrow> - sqlite_max_integer - 1 \<le> i \<and> i \<le> sqlite_max_integer"

definition save_message ::
  "nat \<Rightarrow> string \<Rightarrow> string \<Rightarrow> nat \<Rightarrow> database \<Rightarrow> py_error + nat \<times> database" where
  "save_message sid r c now d =
     (if int (messages_seq d) \<ge> sqlite_max_integer then Inl OperationalError
      else
        (let new_id = messages_seq d + 1
         in Inr (new_id,
                 d\<lparr>messages_table := messages_table d @
                      [\<lparr>message_id = new_id, message_session_id = sid, role = r, content = c,
                        created_at = now\<rparr>],
                   messages_seq := new_id\<rparr>)))"

text \<open>
  \<^verbatim>\<open>SELECT id, times_discussed FROM concepts WHERE name = ?\<close> with \<^verbatim>\<open>fetchone()\<close>: the
  first row with that name (SQLite compares \<^verbatim>\<open>TEXT\<close> byte for byte by default).
\<close>

definition select_concept_by_name :: "string \<Rightarrow> database \<Rightarrow> concept_row option" where
  "select_concept_by_name n d = find (\<lambda>r. name r = n) (concepts_table d)"

text \<open>
  \<^verbatim>\<open>save_concept\<close>. The \<^verbatim>\<open>UPDATE\<close> binds \<^verbatim>\<open>row["times_discussed"] + 1\<close>, computed in
  Python, as an SQLite \<^verbatim>\<open>INTEGER\<close>; the \<^verbatim>\<open>INSERT\<close> takes the next id.
\<close>

definition save_concept ::
  "string \<Rightarrow> string option \<Rightarrow> nat \<Rightarrow> database \<Rightarrow> py_error + nat \<times> database" where
  "save_concept n cat now d =
     (case select_concept_by_name n d of
        Some row \<Rightarrow>
          if \<not> sqlite_integer (times_discussed row + 1) then Inl OverflowError
          else
            Inr (row_id row,
                 d\<lparr>concepts_table :=
                     map (\<lambda>r. if row_id r = row_id row
                               then r\<lparr>times_discussed := times_discussed row + 1\<rparr> else r)
                         (concepts_table d)\<rparr>)
      | None \<Rightarrow>
          if int (concepts_seq d) \<ge> sqlite_max_integer then Inl OperationalError
          else
            (let new_id = concepts_seq d + 1
             in Inr (new_id,
                     d\<lparr>concepts_table := concepts_table d @
                          [\<lparr>row_id = new_id, name = n, category = cat, first_seen_at = now,
                            times_discussed = 1, understanding_level = 1,
                            last_reviewed_at = None\<rparr>],
                       concepts_seq := new_id\<rparr>)))"

definition record_concept_mention ::
  "nat \<Rightarrow> nat \<Rightarrow> nat \<Rightarrow> nat \<Rightarrow> database \<Rightarrow> py_error + database" where
  "record_concept_mention cid mid sid now d =
     (if int (mentions_seq d) \<ge> sqlite_max_integer then Inl OperationalError
      else
        (let new_id = mentions_seq d + 1
         in Inr (d\<lparr>mentions_table := mentions_table d @
                     [\<lparr>mention_id = new_id, mention_concept_id = cid, mention_message_id = mid,
                       mention_session_id = sid, mentioned_at = now\<rparr>],
                  mentions_seq := new_id\<rparr>)))"

definition update_concept_understanding :: "nat \<Rightarrow> int \<Rightarrow> nat \<Rightarrow> database \<Rightarrow> database" where
  "update_concept_understanding cid level now d =
     d\<lparr>concepts_table :=
         map (\<lambda>r. if row_id r = cid
                   then r\<lparr>understanding_level := max 1 (min 5 level),
                          last_reviewed_at := Some now\<rparr>
                   else r)
             (concepts_table d)\<rparr>"

text \<open>
  What the schema guarantees of the concepts table: \<^verbatim>\<open>id\<close> is the primary key, \<^verbatim>\<open>name\<close>
  is \<^verbatim>\<open>UNIQUE\<close>, and no id exceeds the last one handed out.
\<close>

definition concepts_wf :: "database \<Rightarrow> bool" where
  "concepts_wf d \<longleftrightarrow>
     distinct (map row_id (concepts_table d)) \<and>
     distinct (map name (concepts_table d)) \<and>
     list_all (\<lambda>r. row_id r \<le> concepts_seq d) (concepts_table d)"

definition select_concept_by_id :: "nat \<Rightarrow> database \<Rightarrow> concept_row option" where
  "select_concept_by_id cid d = find (\<lambda>r. row_id r = cid) (concepts_table d)"

section \<open>quiz.py: parsing the reply\<close>

text \<open>
  \<^verbatim>\<open>\s\<close> in a \<^verbatim>\<open>str\<close> pattern and \<^verbatim>\<open>str.strip()\<close> use the same whitespace: code points 9 to
  13, 28 to 32, U+0085 and U+00A0 (of the code points up to 255).
\<close>

definition isspace :: "char \<Rightarrow> bool" where
  "isspace c =
     (let n = (of_char c :: nat)
      in (9 \<le> n \<and> n \<le> 13) \<or> (28 \<le> n \<and> n \<le> 32) \<or> n = 133 \<or> n = 160)"

definition strip :: "string \<Rightarrow> string" where
  "strip s = rev (dropWhile isspace (rev (dropWhile isspace s)))"

text \<open>
  The regular expressions of \<^verbatim>\<open>parse_quiz_response\<close> all have the shape
  \<^verbatim>\<open>LITERAL\s*(GROUP)\<close>, searched with \<^verbatim>\<open>re.search\<close>. They are matched as the backtracking
  matcher of \<^verbatim>\<open>re\<close> does:
  \<^item> \<open>search m s\<close>: the match at the leftmost start position of \<open>s\<close> at which \<open>m\<close> matches;
  \<^item> \<open>match_here lit k\<close>: the literal \<open>lit\<close>, then \<^verbatim>\<open>\s*\<close>, then \<open>k\<close>;
  \<^item> \<open>spaces_then k\<close>: \<^verbatim>\<open>\s*\<close> is greedy: it takes as much whitespace as there is and gives
    it back one character at a time while the rest \<open>k\<close> does not match;
  \<^item> \<open>lazy_dots la\<close>: the group \<^verbatim>\<open>(.+?)\<close> under \<^verbatim>\<open>re.DOTALL\<close> followed by the lookahead
    \<^verbatim>\<open>(?=...)\<close>: the shortest non-empty run of characters after which \<open>la\<close> holds of the
    rest of the string. The result is the text of group 1.
\<close>

fun lazy_dots :: "(string \<Rightarrow> bool) \<Rightarrow> string \<Rightarrow> string option" where
  "lazy_dots la [] = None"
| "lazy_dots la (c # cs) =
     (if la cs then Some [c] else map_option ((#) c) (lazy_dots la cs))"

fun spaces_then :: "(string \<Rightarrow> 'a option) \<Rightarrow> string \<Rightarrow> 'a option" where
  "spaces_then k [] = k []"
| "spaces_then k (c # cs) =
     (if isspace c
      then (case spaces_then k cs of Some g \<Rightarrow> Some g | None \<Rightarrow> k (c # cs))
      else k (c # cs))"

definition match_here :: "string \<Rightarrow> (string \<Rightarrow> 'a option) \<Rightarrow> string \<Rightarrow> 'a option" where
  "match_here lit k s = (if prefix lit s then spaces_then k (drop (length lit) s) else None)"

fun search :: "(string \<Rightarrow> 'a option) \<Rightarrow> string \<Rightarrow> 'a option" where
  "search m [] = m []"
| "search m (c # cs) = (case m (c # cs) of Some g \<Rightarrow> Some g | None \<Rightarrow> search m cs)"

text \<open>
  The lookaheads. \<open>line_marker letters lit\<close> is \<^verbatim>\<open>\n[letters]lit\<close> at the start of the
  rest of the string; \<open>at_end\<close> is \<^verbatim>\<open>$\<close> without \<^verbatim>\<open>re.MULTILINE\<close>: the end of the string, or
  the position before a newline that ends the string.
\<close>

definition line_marker :: "string \<Rightarrow> string \<Rightarrow> string \<Rightarrow> bool" where
  "line_marker letters lit s =
     (case s of
        nl # l # rest \<Rightarrow> nl = CHR 0x0A \<and> l \<in> set letters \<and> prefix lit rest
      | _ \<Rightarrow> False)"

definition at_end :: "string \<Rightarrow> bool" where
  "at_end s \<longleftrightarrow> s = [] \<or> s = [CHR 0x0A]"

text \<open>\<^verbatim>\<open>([A-D])\<close>: one of the four letters, returned as a string of length one.\<close>

definition one_letter :: "string \<Rightarrow> string \<Rightarrow> string option" where
  "one_letter letters s =
     (case s of [] \<Rightarrow> None | c # _ \<Rightarrow> if c \<in> set letters then Some [c] else None)"

text \<open>The five keys of the dict that \<^verbatim>\<open>parse_quiz_response\<close> returns; dicts are association lists.\<close>

record quiz_data =
  question :: string
  options :: "(string \<times> string) list"
  correct :: string
  correct_explanation :: string
  explanations :: "(string \<times> string) list"

text \<open>The body of the first loop for one letter: the first pattern, then the alternate one.\<close>

definition parse_option :: "string \<Rightarrow> string \<Rightarrow> string option" where
  "parse_option response_text letter =
     (case search (match_here (letter @ '')'')
                    (lazy_dots (\<lambda>s. line_marker ''BCD'' '')'' s \<or> prefix ''CORRECT:'' s)))
                  response_text of
        Some g \<Rightarrow> Some (strip g)
      | None \<Rightarrow>
          (case search (match_here (letter @ '')'')
                         (lazy_dots (prefix ''\<newline>CORRECT:'')))
                       response_text of
             Some g \<Rightarrow> Some (strip g)
           | None \<Rightarrow> None))"

definition parse_options :: "string \<Rightarrow> (string \<times> string) list" where
  "parse_options response_text =
     concat (map (\<lambda>letter. case parse_option response_text letter of
                              Some v \<Rightarrow> [(letter, v)] | None \<Rightarrow> [])
                 [''A'', ''B'', ''C'', ''D''])"

definition parse_explanation :: "string \<Rightarrow> string \<Rightarrow> string" where
  "parse_explanation response_text letter =
     (case search (match_here (letter @ ''_EXPLANATION:'')
                    (lazy_dots (\<lambda>s. line_marker ''BCD'' ''_EXPLANATION:'' s \<or> at_end s)))
                  response_text of
        Some g \<Rightarrow> strip g
      | None \<Rightarrow> '''')"

text \<open>
  \<^verbatim>\<open>parse_quiz_response\<close>. No operation of the body raises on a \<^verbatim>\<open>str\<close> (each
  \<^verbatim>\<open>group(1)\<close> is read after the match was tested), so the \<^verbatim>\<open>except Exception\<close> branch,
  which returns \<^verbatim>\<open>None\<close> too, has no case of its own.
\<close>

definition parse_quiz_response :: "string \<Rightarrow> quiz_data option" where
  "parse_quiz_response response_text =
     (case search (match_here ''QUESTION:'' (lazy_dots (line_marker ''ABCD'' '')''))) response_text of
        None \<Rightarrow> None
      | Some question_match \<Rightarrow>
          (let opts = parse_options response_text
           in if length opts \<noteq> 4 then None
              else
                (case search (match_here ''CORRECT:'' (one_letter ''ABCD'')) response_text of
                   None \<Rightarrow> None
                 | Some correct_match \<Rightarrow>
                     (case search (match_here ''CORRECT_EXPLANATION:''
                                     (lazy_dots (line_marker ''ABCD'' ''_EXPLANATION:'')))
                                  response_text of
                        None \<Rightarrow> None
                      | Some correct_exp_match \<Rightarrow>
                          Some \<lparr>question = strip question_match,
                                options = opts,
                                correct = correct_match,
                                correct_explanation = strip correct_exp_match,
                                explanations =
                                  map (\<lambda>letter. (letter, parse_explanation response_text letter))
                                      [''A'', ''B'', ''C'', ''D'']\<rparr>))))"

section \<open>quiz.py and app.py: the quiz state machine\<close>

text \<open>
  The quiz state dict of \<^verbatim>\<open>create_initial_quiz_state\<close>: the five keys of the parsed
  question and seven more. An entry of \<^verbatim>\<open>results\<close> is the dict
  \<^verbatim>\<open>{"concept_id": ..., "correct": ...}\<close>, with fields \<open>concept_id\<close> and \<open>was_correct\<close>.
\<close>

record quiz_result =
  concept_id :: nat
  was_correct :: bool

record quiz_state = quiz_data +
  active :: bool
  concepts :: "concept_row list"
  current_index :: nat
  user_answer :: "string option"
  answered :: bool
  results :: "quiz_result list"
  loading :: bool

definition create_initial_quiz_state :: "concept_row list \<Rightarrow> quiz_state" where
  "create_initial_quiz_state cs =
     \<lparr>question = '''', options = [], correct = '''', correct_explanation = '''',
      explanations = [], active = True, concepts = cs, current_index = 0,
      user_answer = None, answered = False, results = [], loading = True\<rparr>"

text \<open>
  What \<^verbatim>\<open>agent.run\<close> does when it is called is an input of the model: it raises
  \<^verbatim>\<open>ModelHTTPError\<close>, raises another exception, or returns an output text together with
  the new messages of the exchange. \<open>llm_requests\<close> below records every call of
  \<^verbatim>\<open>agent.run\<close>, whatever its outcome; the program itself keeps no such record.
\<close>

datatype llm_outcome = ModelHTTPError | OtherException | Output string "string list"

datatype llm_request = QuizRequest string | ChatRequest string

datatype button = QuizOption string | NextQuestion | DoneOrEndQuiz | Rating int

text \<open>
  One run of the script: the button the user clicked (if any), the chat text submitted
  (if any), the outcome of \<^verbatim>\<open>agent.run\<close> if this run calls it, and the clock.
\<close>

record run_input =
  clicked :: "button option"
  chat_text :: "string option"
  llm :: llm_outcome
  now :: nat

text \<open>\<^verbatim>\<open>st.session_state\<close>, together with the database file.\<close>

record app =
  session_id :: nat
  messages :: "(string \<times> string) list"
  pydantic_messages :: "string list"
  message_count :: int
  quiz_mode :: bool
  quiz_concepts :: "concept_row list"
  awaiting_rating :: bool
  quiz_state :: "quiz_state option"
  pending_concept_question :: "string option"
  db :: database
  llm_requests :: "llm_request list"

definition MAX_MESSAGES_PER_SESSION :: int where
  "MAX_MESSAGES_PER_SESSION = 25"

definition check_message_limit :: "app \<Rightarrow> bool" where
  "check_message_limit a \<longleftrightarrow> message_count a \<ge> MAX_MESSAGES_PER_SESSION"

definition increment_message_count :: "app \<Rightarrow> app" where
  "increment_message_count a = a\<lparr>message_count := message_count a + 1\<rparr>"

text \<open>
  The loop of \<^verbatim>\<open>save_and_track_message\<close> over the extracted concepts, and the function
  itself. A database call that raises ends both; nothing around them catches it.
\<close>

fun track_concepts ::
  "(string \<times> string) list \<Rightarrow> nat \<Rightarrow> nat \<Rightarrow> nat \<Rightarrow> database \<Rightarrow> py_error + database" where
  "track_concepts [] mid sid t d = Inr d"
| "track_concepts ((concept_name, cat) # rest) mid sid t d =
     (case save_concept concept_name (Some cat) t d of
        Inl e \<Rightarrow> Inl e
      | Inr (cid, d1) \<Rightarrow>
          (case record_concept_mention cid mid sid t d1 of
             Inl e \<Rightarrow> Inl e
           | Inr d2 \<Rightarrow> track_concepts rest mid sid t d2))"

definition save_and_track_message :: "string \<Rightarrow> string \<Rightarrow> nat \<Rightarrow> app \<Rightarrow> py_error + app" where
  "save_and_track_message r c t a =
     (case save_message (session_id a) r c t (db a) of
        Inl e \<Rightarrow> Inl e
      | Inr (mid, d1) \<Rightarrow>
          if r = ''assistant''
          then (case track_concepts (extract_concepts c) mid (session_id a) t d1 of
                  Inl e \<Rightarrow> Inl e
                | Inr d2 \<Rightarrow> Inr (a\<lparr>db := d2\<rparr>))
          else Inr (a\<lparr>db := d1\<rparr>))"

definition update_quiz_understanding :: "int \<Rightarrow> nat \<Rightarrow> app \<Rightarrow> app" where
  "update_quiz_understanding level t a =
     a\<lparr>db := fold (\<lambda>concept d. update_concept_understanding (row_id concept) level t d)
                  (quiz_concepts a) (db a),
       quiz_mode := False,
       quiz_concepts := [],
       awaiting_rating := False,
       quiz_state := None\<rparr>"

text \<open>The part of \<^verbatim>\<open>start_quiz_mode\<close> after the query that selects the concepts.\<close>

definition start_quiz_mode :: "concept_row list \<Rightarrow> app \<Rightarrow> app" where
  "start_quiz_mode cs a =
     (if cs = []
      then a\<lparr>quiz_mode := False, quiz_concepts := [], quiz_state := None\<rparr>
      else a\<lparr>quiz_mode := True, quiz_concepts := cs, awaiting_rating := False,
             quiz_state := Some (create_initial_quiz_state cs)\<rparr>)"

definition advance_quiz :: "app \<Rightarrow> app" where
  "advance_quiz a =
     (case quiz_state a of
        None \<Rightarrow> a
      | Some qs \<Rightarrow>
          a\<lparr>quiz_state := Some (qs\<lparr>current_index := current_index qs + 1,
                                    question := '''',
                                    options := [],
                                    correct := '''',
                                    explanations := [],
                                    correct_explanation := '''',
                                    user_answer := None,
                                    answered := False,
                                    loading := True\<rparr>)\<rparr>)"

definition finish_quiz :: "app \<Rightarrow> app" where
  "finish_quiz a = a\<lparr>awaiting_rating := True\<rparr>"

text \<open>
  The render functions return the session state at the end of the run; \<^verbatim>\<open>st.rerun()\<close>
  ends the run. Of what they draw, only the reads that can raise are kept:
  \<^verbatim>\<open>concepts[current_index]\<close> raises \<^verbatim>\<open>IndexError\<close> past the end of the list, and
  \<^verbatim>\<open>options[letter]\<close> raises \<^verbatim>\<open>KeyError\<close> on a missing key.
\<close>

definition render_quiz_header :: "app \<Rightarrow> py_error + app" where
  "render_quiz_header a =
     (case quiz_state a of
        None \<Rightarrow> Inr a
      | Some qs \<Rightarrow>
          if current_index qs < length (concepts qs) then Inr a else Inl IndexError)"

definition render_quiz_question :: "run_input \<Rightarrow> app \<Rightarrow> py_error + app" where
  "render_quiz_question inp a =
     (case quiz_state a of
        None \<Rightarrow> Inr a
      | Some qs \<Rightarrow>
          if check_message_limit a
          then Inr (a\<lparr>quiz_mode := False, quiz_state := None\<rparr>)
          else if loading qs
          then
            (if current_index qs < length (concepts qs)
             then
               (let current_concept = concepts qs ! current_index qs;
                    a1 = a\<lparr>llm_requests :=
                              llm_requests a @ [QuizRequest (name current_concept)]\<rparr>
                in case llm inp of
                     ModelHTTPError \<Rightarrow> Inr (a1\<lparr>quiz_mode := False, quiz_state := None\<rparr>)
                   | OtherException \<Rightarrow> Inr (a1\<lparr>quiz_mode := False, quiz_state := None\<rparr>)
                   | Output text new_messages \<Rightarrow>
                       (case parse_quiz_response text of
                          Some parsed \<Rightarrow>
                            Inr ((increment_message_count a1)
                                   \<lparr>quiz_state :=
                                      Some (qs\<lparr>question := question parsed,
                                               options := options parsed,
                                               correct := correct parsed,
                                               explanations := explanations parsed,
                                               correct_explanation := correct_explanation parsed,
                                               loading := False\<rparr>)\<rparr>)
                        | None \<Rightarrow> Inr (advance_quiz a1)))
             else Inl IndexError)
          else
            (case clicked inp of
               Some (QuizOption letter) \<Rightarrow>
                 if letter \<in> set [''A'', ''B'', ''C'', ''D'']
                 then
                   (if current_index qs < length (concepts qs)
                    then
                      (let current_concept = concepts qs ! current_index qs
                       in Inr (a\<lparr>quiz_state :=
                                    Some (qs\<lparr>user_answer := Some letter,
                                             answered := True,
                                             results := results qs @
                                               [\<lparr>concept_id = row_id current_concept,
                                                 was_correct = (letter = correct qs)\<rparr>]\<rparr>)\<rparr>))
                    else Inl IndexError)
                 else Inr a
             | _ \<Rightarrow> Inr a))"

definition render_quiz_result :: "run_input \<Rightarrow> app \<Rightarrow> py_error + app" where
  "render_quiz_result inp a =
     (case quiz_state a of
        None \<Rightarrow> Inr a
      | Some qs \<Rightarrow>
          if \<not> answered qs then Inr a
          else
            (let is_correct = (user_answer qs = Some (correct qs));
                 shown = (if is_correct then [Some (correct qs)]
                          else [user_answer qs, Some (correct qs)])
             in if \<exists>k \<in> set shown. k \<notin> Some ` fst ` set (options qs)
                then Inl KeyError
                else
                  (let is_last = (int (current_index qs) \<ge> int (length (concepts qs)) - 1)
                   in if \<not> is_last \<and> clicked inp = Some NextQuestion
                      then Inr (advance_quiz a)
                      else if clicked inp = Some DoneOrEndQuiz
                      then Inr (finish_quiz a)
                      else Inr a)))"

definition render_understanding_rating :: "run_input \<Rightarrow> app \<Rightarrow> app" where
  "render_understanding_rating inp a =
     (case clicked inp of
        Some (Rating level) \<Rightarrow>
          if level \<in> {1, 3, 5} then update_quiz_understanding level (now inp) a else a
      | _ \<Rightarrow> a)"

definition process_user_input :: "string \<Rightarrow> run_input \<Rightarrow> app \<Rightarrow> py_error + app" where
  "process_user_input user_input inp a =
     (let a1 = a\<lparr>messages := messages a @ [(''user'', user_input)]\<rparr>
      in case save_and_track_message ''user'' user_input (now inp) a1 of
           Inl e \<Rightarrow> Inl e
         | Inr a2 \<Rightarrow>
             (let a3 = a2\<lparr>llm_requests := llm_requests a2 @ [ChatRequest user_input]\<rparr>
              in case llm inp of
                   ModelHTTPError \<Rightarrow> Inr a3
                 | OtherException \<Rightarrow> Inr a3
                 | Output response_text new_messages \<Rightarrow>
                     (let a4 = a3\<lparr>pydantic_messages := pydantic_messages a3 @ new_messages\<rparr>;
                          a5 = increment_message_count a4;
                          a6 = a5\<lparr>messages := messages a5 @ [(''assistant'', response_text)]\<rparr>
                      in save_and_track_message ''assistant'' response_text (now inp) a6)))"

text \<open>
  \<^verbatim>\<open>main\<close>, after the sidebar (which never calls \<^verbatim>\<open>agent.run\<close>) and the
  initialisation of missing session keys: the quiz screens, the rating screen, or the
  chat. A pending concept question and a chat text count when they are non-empty strings.
  \<^verbatim>\<open>process_user_input\<close> catches the exceptions of the LLM call only: one raised by a
  database call ends the run.
\<close>

definition main :: "run_input \<Rightarrow> app \<Rightarrow> py_error + app" where
  "main inp a =
     (let quiz_active = (quiz_mode a \<and>
                          (case quiz_state a of None \<Rightarrow> False | Some qs \<Rightarrow> active qs))
      in if quiz_active \<and> \<not> awaiting_rating a
         then
           (case render_quiz_header a of
              Inl e \<Rightarrow> Inl e
            | Inr _ \<Rightarrow>
                if (case quiz_state a of None \<Rightarrow> False | Some qs \<Rightarrow> answered qs)
                then render_quiz_result inp a
                else render_quiz_question inp a)
         else if quiz_mode a \<and> awaiting_rating a
         then Inr (render_understanding_rating inp a)
         else if check_message_limit a
         then Inr a
         else
           (case pending_concept_question a of
              Some (c # cs) \<Rightarrow>
                process_user_input
                  (''Explain '' @ (c # cs) @
                   '' to me. What is it, why does it matter in cybersecurity, and give me an example.'')
                  inp (a\<lparr>pending_concept_question := None\<rparr>)
            | _ \<Rightarrow>
                (case chat_text inp of
                   Some (c # cs) \<Rightarrow> process_user_input (c # cs) inp a
                 | _ \<Rightarrow> Inr a)))"

text \<open>A sequence of runs; an uncaught exception ends it.\<close>

fun runs :: "run_input list \<Rightarrow> app \<Rightarrow> py_error + app" where
  "runs [] a = Inr a"
| "runs (inp # inps) a = (case main inp a of Inl e \<Rightarrow> Inl e | Inr a' \<Rightarrow> runs inps a')"

section \<open>Example data\<close>

definition example_row :: "nat \<Rightarrow> string \<Rightarrow> concept_row" where
  "example_row i n =
     \<lparr>row_id = i, name = n, category = None, first_seen_at = 0, times_discussed = 1,
      understanding_level = 1, last_reviewed_at = None\<rparr>"

definition example_db :: database where
  "example_db =
     \<lparr>concepts_table = [example_row 1 ''firewall'', example_row 2 ''phishing''],
      concepts_seq = 2, messages_table = [], messages_seq = 0,
      mentions_table = [], mentions_seq = 0\<rparr>"

definition empty_db :: database where
  "empty_db =
     \<lparr>concepts_table = [], concepts_seq = 0, messages_table = [], messages_seq = 0,
      mentions_table = [], mentions_seq = 0\<rparr>"

definition example_app :: app where
  "example_app =
     \<lparr>session_id = 1, messages = [], pydantic_messages = [], message_count = 0,
      quiz_mode = False, quiz_concepts = [], awaiting_rating = False, quiz_state = None,
      pending_concept_question = None, db = example_db, llm_requests = []\<rparr>"

text \<open>The two assignments of the \<^verbatim>\<open>UPDATE\<close> in \<^verbatim>\<open>update_concept_understanding\<close>, on one row.\<close>

definition rate_row :: "int \<Rightarrow> nat \<Rightarrow> concept_row \<Rightarrow> concept_row" where
  "rate_row level t r = r\<lparr>understanding_level := max 1 (min 5 level), last_reviewed_at := Some t\<rparr>"

section \<open>The reply format of the quiz prompt\<close>

text \<open>
  A reply in the format that \<^verbatim>\<open>QUIZ_PROMPT_TEMPLATE\<close> asks for, with the eleven
  bracketed places of the template filled in.
\<close>

definition format_response ::
  "string \<Rightarrow> string \<Rightarrow> string \<Rightarrow> string \<Rightarrow> string \<Rightarrow> char \<Rightarrow>
   string \<Rightarrow> string \<Rightarrow> string \<Rightarrow> string \<Rightarrow> string \<Rightarrow> string" where
  "format_response q a b c d l ce ea eb ec ed =
     ''QUESTION: '' @ q @
     ''\<newline>A) '' @ a @
     ''\<newline>B) '' @ b @
     ''\<newline>C) '' @ c @
     ''\<newline>D) '' @ d @
     ''\<newline>CORRECT: '' @ [l] @
     ''\<newline>CORRECT_EXPLANATION: '' @ ce @
     ''\<newline>A_EXPLANATION: '' @ ea @
     ''\<newline>B_EXPLANATION: '' @ eb @
     ''\<newline>C_EXPLANATION: '' @ ec @
     ''\<newline>D_EXPLANATION: '' @ ed"

text \<open>
  A line of a text that starts with a marker, leading whitespace aside; the lines are
  the parts between newlines.
\<close>

fun split_lines :: "string \<Rightarrow> string list" where
  "split_lines [] = [[]]"
| "split_lines (c # cs) =
     (if c = CHR 0x0A then [] # split_lines cs
      else (case split_lines cs of l # ls \<Rightarrow> (c # l) # ls | [] \<Rightarrow> [[c]]))"

definition has_line_starting :: "string \<Rightarrow> string \<Rightarrow> bool" where
  "has_line_starting marker text =
     list_ex (\<lambda>l. prefix marker (dropWhile isspace l)) (split_lines text)"

definition reply_without_correct_line :: string where
  "reply_without_correct_line =
     ''QUESTION: q\<newline>A) a\<newline>B) b\<newline>C) c\<newline>D) d INCORRECT: A\<newline>'' @
     ''CORRECT_EXPLANATION: e\<newline>A_EXPLANATION: x''"

definition reply_without_correct_marker :: string where
  "reply_without_correct_marker =
     ''QUESTION: q\<newline>A) a\<newline>B) b\<newline>C) c\<newline>D) d\<newline>'' @
     ''CORRECT_EXPLANATION: e\<newline>A_EXPLANATION: x\<newline>B_EXPLANATION: y\<newline>'' @
     ''C_EXPLANATION: z\<newline>D_EXPLANATION: w''"

section \<open>Example runs of the quiz\<close>

text \<open>
  A quiz on the two stored concepts, as \<^verbatim>\<open>start_quiz_mode\<close> sets it up, and the inputs of
  single runs: a run in which \<^verbatim>\<open>agent.run\<close> returns a text, one in which it raises, a
  click, and a rerun without input. A run that does not call \<^verbatim>\<open>agent.run\<close> does not read
  the outcome given with it.
\<close>

definition quiz_app :: app where
  "quiz_app = start_quiz_mode [example_row 1 ''firewall'', example_row 2 ''phishing''] example_app"

definition reply_run :: "string \<Rightarrow> run_input" where
  "reply_run text = \<lparr>clicked = None, chat_text = None, llm = Output text [], now = 0\<rparr>"

definition error_run :: "llm_outcome \<Rightarrow> run_input" where
  "error_run e = \<lparr>clicked = None, chat_text = None, llm = e, now = 0\<rparr>"


definition rerun :: run_input where
  "rerun = \<lparr>clicked = None, chat_text = None, llm = OtherException, now = 0\<rparr>"

definition chat_run :: "string \<Rightarrow> string \<Rightarrow> run_input" where
  "chat_run user_input response = \<lparr>clicked = None, chat_text = Some user_input, llm = Output response [], now = 0\<rparr>"

definition good_reply :: string where
  "good_reply = format_response ''q'' ''a'' ''b'' ''c'' ''d'' CHR ''B'' ''e'' ''x'' ''y'' ''z'' ''w''"

text \<open>The quiz screen that waits for the question of the current concept.\<close>

definition awaiting_question :: "app \<Rightarrow> quiz_state \<Rightarrow> bool" where
  "awaiting_question a qs \<longleftrightarrow>
     quiz_mode a \<and> \<not> awaiting_rating a \<and> quiz_state a = Some qs \<and> active qs \<and>
     \<not> answered qs \<and> loading qs \<and> current_index qs < length (concepts qs)"

section \<open>What a run does to the quiz state\<close>













section \<open>Properties of the concept extractor\<close>

lemma found_all_filter:
  "found_all table t = filter (\<lambda>item. contains (lower (fst item)) t) (table_pairs table)"
  by (induction table) (auto simp: found_all_def table_pairs_def found_keywords_def filter_map comp_def)

lemma unique_from_seen: "item \<in> set (unique_from seen xs) \<Longrightarrow> lower (fst item) \<notin> seen"
  by (induction seen xs rule: unique_from.induct) (auto split: if_splits)

lemma unique_from_distinct: "distinct (map (\<lambda>item. lower (fst item)) (unique_from seen xs))"
  by (induction seen xs rule: unique_from.induct) (auto dest: unique_from_seen)

lemma unique_from_subset: "set (unique_from seen xs) \<subseteq> set xs"
  by (induction seen xs rule: unique_from.induct) auto

lemma unique_from_subseq: "subseq (unique_from seen xs) xs"
  by (induction seen xs rule: unique_from.induct) auto

lemma unique_from_first:
  "item \<in> set (unique_from seen xs) \<Longrightarrow> find (\<lambda>i. lower (fst i) = lower (fst item)) xs = Some item"
proof (induction seen xs rule: unique_from.induct)
  case (1 seen)
  then show ?case by simp
next
  case (2 seen x items)
  show ?case
  proof (cases "lower (fst x) \<in> seen")
    case True
    with 2 have m: "item \<in> set (unique_from seen items)" by simp
    from unique_from_seen[OF m] True have "lower (fst x) \<noteq> lower (fst item)" by auto
    with 2 True m show ?thesis by simp
  next
    case False
    show ?thesis
    proof (cases "item = x")
      case True then show ?thesis by simp
    next
      case ne: False
      with 2 False have m: "item \<in> set (unique_from (insert (lower (fst x)) seen) items)" by simp
      from unique_from_seen[OF m] have "lower (fst x) \<noteq> lower (fst item)" by auto
      with 2 False m show ?thesis by simp
    qed
  qed
qed

lemma unique_from_keeps:
  "item \<in> set xs \<Longrightarrow> lower (fst item) \<notin> seen \<Longrightarrow> \<exists>i \<in> set (unique_from seen xs). lower (fst i) = lower (fst item)"
proof (induction seen xs rule: unique_from.induct)
  case (1 seen)
  then show ?case by simp
next
  case (2 seen x items)
  show ?case
  proof (cases "lower (fst x) = lower (fst item)")
    case True
    with 2 show ?thesis by auto
  next
    case False
    with 2 show ?thesis by auto
  qed
qed

lemma find_filter_name:
  "find (\<lambda>i. lower (fst i) = l) (filter (\<lambda>i. contains (lower (fst i)) t) xs)
     = (if contains l t then find (\<lambda>i. lower (fst i) = l) xs else None)"
  by (induction xs) auto

lemma lower_exploit: "lower ''exploit'' = ''exploit''"
  by (simp add: lower_def lower_char_def)

lemma find_exploit: "find (\<lambda>i. lower (fst i) = ''exploit'') (table_pairs CONCEPT_KEYWORDS) = Some (''exploit'', ''Malware'')"
  by (simp add: table_pairs_def CONCEPT_KEYWORDS_def lower_def lower_char_def)


lemma found_all_in_table:
  "item \<in> set (found_all table t) \<Longrightarrow> \<exists>keywords. (snd item, keywords) \<in> set table \<and> fst item \<in> set keywords"
  by (induction table) (auto simp: found_all_def found_keywords_def)

lemma exploit_found:
  assumes "contains ''exploit'' (lower text)"
  shows "(''exploit'', ''Malware'') \<in> set (extract_concepts text)"
proof -
  let ?xs = "found_all CONCEPT_KEYWORDS (lower text)"
  have f: "find (\<lambda>i. lower (fst i) = ''exploit'') ?xs = Some (''exploit'', ''Malware'')"
    using assms by (simp add: found_all_filter find_filter_name find_exploit)
  then have "(''exploit'', ''Malware'') \<in> set ?xs"
    by (auto simp: find_Some_iff)
  from unique_from_keeps[OF this, of "{}"]
  obtain i where i: "i \<in> set (unique_from {} ?xs)" "lower (fst i) = ''exploit''"
    by (auto simp: lower_exploit)
  from unique_from_first[OF i(1)] i(2) f have "i = (''exploit'', ''Malware'')" by simp
  with i(1) show ?thesis by (simp add: extract_concepts_def)
qed

text \<open>
  Claim C8. For every text, no two names returned by \<^verbatim>\<open>extract_concepts\<close> are equal
  after lower-casing, and every returned pair is a keyword of \<^verbatim>\<open>CONCEPT_KEYWORDS\<close>,
  unchanged, together with a category that lists it.
\<close>

theorem extract_concepts_unique_verbatim:
  "distinct (map (\<lambda>item. lower (fst item)) (extract_concepts text)) \<and>
   (\<forall>item \<in> set (extract_concepts text).
      \<exists>keywords. (snd item, keywords) \<in> set CONCEPT_KEYWORDS \<and> fst item \<in> set keywords)"
proof -
  have "set (extract_concepts text) \<subseteq> set (found_all CONCEPT_KEYWORDS (lower text))"
    unfolding extract_concepts_def by (rule unique_from_subset)
  then show ?thesis
    by (auto simp: extract_concepts_def unique_from_distinct dest!: found_all_in_table)
qed

text \<open>The same at the text \<^verbatim>\<open>An Exploit\<close>, which returns the keyword \<^verbatim>\<open>exploit\<close>.\<close>

theorem extract_concepts_unique_verbatim_witness:
  "(''exploit'', ''Malware'') \<in> set (extract_concepts ''An Exploit'') \<and>
   distinct (map (\<lambda>item. lower (fst item)) (extract_concepts ''An Exploit'')) \<and>
   (\<exists>keywords. (''Malware'', keywords) \<in> set CONCEPT_KEYWORDS \<and> ''exploit'' \<in> set keywords)"
proof -
  have c: "contains ''exploit'' (lower ''An Exploit'')"
    by code_simp
  from exploit_found[OF c] extract_concepts_unique_verbatim[of "''An Exploit''"]
  show ?thesis by fastforce
qed

text \<open>
  Claim C10. The pairs returned by \<^verbatim>\<open>extract_concepts\<close> come in the order of the table
  (categories in declaration order, keywords in list order): the result is a subsequence
  of the table read in that order, each returned pair is the first table entry with its
  lower-cased name, and two texts in which the same keywords occur give the same list,
  wherever the keywords stand. The keyword \<^verbatim>\<open>exploit\<close>, listed under Malware and under
  Vulnerabilities, is returned with Malware, the first of the two, and never with
  Vulnerabilities.
\<close>

theorem extract_concepts_table_order:
  "subseq (extract_concepts text) (table_pairs CONCEPT_KEYWORDS) \<and>
   (\<forall>item \<in> set (extract_concepts text).
      find (\<lambda>i. lower (fst i) = lower (fst item)) (table_pairs CONCEPT_KEYWORDS) = Some item) \<and>
   ((\<forall>keyword \<in> fst ` set (table_pairs CONCEPT_KEYWORDS).
       contains (lower keyword) (lower text) = contains (lower keyword) (lower text'))
     \<longrightarrow> extract_concepts text = extract_concepts text') \<and>
   (contains ''exploit'' (lower text) \<longrightarrow>
      (''exploit'', ''Malware'') \<in> set (extract_concepts text) \<and>
      (''exploit'', ''Vulnerabilities'') \<notin> set (extract_concepts text))"
proof (intro conjI ballI impI)
  show "subseq (extract_concepts text) (table_pairs CONCEPT_KEYWORDS)"
    unfolding extract_concepts_def found_all_filter
    by (rule subseq_order.trans[OF unique_from_subseq]) simp
next
  fix item assume m: "item \<in> set (extract_concepts text)"
  then have "find (\<lambda>i. lower (fst i) = lower (fst item)) (found_all CONCEPT_KEYWORDS (lower text)) = Some item"
    unfolding extract_concepts_def by (rule unique_from_first)
  then show "find (\<lambda>i. lower (fst i) = lower (fst item)) (table_pairs CONCEPT_KEYWORDS) = Some item"
    by (simp add: found_all_filter find_filter_name split: if_splits)
next
  assume "\<forall>keyword \<in> fst ` set (table_pairs CONCEPT_KEYWORDS).
       contains (lower keyword) (lower text) = contains (lower keyword) (lower text')"
  then have "found_all CONCEPT_KEYWORDS (lower text) = found_all CONCEPT_KEYWORDS (lower text')"
    unfolding found_all_filter by (intro filter_cong) auto
  then show "extract_concepts text = extract_concepts text'"
    by (simp add: extract_concepts_def)
next
  assume c: "contains ''exploit'' (lower text)"
  then show m: "(''exploit'', ''Malware'') \<in> set (extract_concepts text)"
    by (rule exploit_found)
  show "(''exploit'', ''Vulnerabilities'') \<notin> set (extract_concepts text)"
  proof
    assume v: "(''exploit'', ''Vulnerabilities'') \<in> set (extract_concepts text)"
    have "distinct (map (\<lambda>item. lower (fst item)) (extract_concepts text))"
      by (simp add: extract_concepts_def unique_from_distinct)
    then have "inj_on (\<lambda>item. lower (fst item)) (set (extract_concepts text))"
      by (simp add: distinct_map)
    from inj_onD[OF this _ m v] show False by simp
  qed
qed

text \<open>The same at two texts that spell \<^verbatim>\<open>exploit\<close> differently.\<close>

theorem extract_concepts_table_order_witness:
  "(''exploit'', ''Malware'') \<in> set (extract_concepts ''an EXPLOIT'') \<and>
   (''exploit'', ''Vulnerabilities'') \<notin> set (extract_concepts ''an EXPLOIT'') \<and>
   find (\<lambda>i. lower (fst i) = ''exploit'') (table_pairs CONCEPT_KEYWORDS) = Some (''exploit'', ''Malware'') \<and>
   extract_concepts ''an EXPLOIT'' = extract_concepts ''An Exploit''"
proof -
  have c: "contains ''exploit'' (lower ''an EXPLOIT'')"
    by code_simp
  have l: "lower ''an EXPLOIT'' = lower ''An Exploit''"
    by code_simp
  from c l extract_concepts_table_order[of "''an EXPLOIT''" "''An Exploit''"]
  show ?thesis by (auto simp: lower_exploit)
qed

section \<open>Properties of the concept store\<close>

lemma find_map_preserve:
  "(\<And>r. P (g r) = P r) \<Longrightarrow> find P (map g xs) = map_option g (find P xs)"
  by (induction xs) auto

lemma select_after_update:
  "select_concept_by_id cid (update_concept_understanding cid level t d) =
     map_option (\<lambda>r. r\<lparr>understanding_level := max 1 (min 5 level), last_reviewed_at := Some t\<rparr>)
       (select_concept_by_id cid d)"
proof -
  have "find (\<lambda>r. row_id r = cid)
          (map (\<lambda>r. if row_id r = cid
                    then r\<lparr>understanding_level := max 1 (min 5 level), last_reviewed_at := Some t\<rparr>
                    else r) xs)
        = map_option (\<lambda>r. r\<lparr>understanding_level := max 1 (min 5 level), last_reviewed_at := Some t\<rparr>)
            (find (\<lambda>r. row_id r = cid) xs)" for xs
    by (induction xs) auto
  then show ?thesis
    by (simp add: select_concept_by_id_def update_concept_understanding_def)
qed



text \<open>
  Claim C7. For every integer level, \<^verbatim>\<open>update_concept_understanding\<close> stores the level
  clamped to 1..5 in the row of the given id: 5 for a level above 5, 1 for a level below 1,
  and the level itself otherwise.
\<close>

theorem update_concept_understanding_clamps:
  "select_concept_by_id cid d = Some r \<Longrightarrow>
   (\<exists>r'. select_concept_by_id cid (update_concept_understanding cid level t d) = Some r' \<and>
      understanding_level r' = (if level > 5 then 5 else if level < 1 then 1 else level) \<and>
      1 \<le> understanding_level r' \<and> understanding_level r' \<le> 5)"
  by (auto simp: select_after_update)

text \<open>Levels 9, -3 and 4 written to the row with id 2 are stored as 5, 1 and 4.\<close>

theorem update_concept_understanding_clamps_witness:
  "select_concept_by_id 2 example_db = Some (example_row 2 ''phishing'') \<and>
   map_option understanding_level
     (select_concept_by_id 2 (update_concept_understanding 2 9 7 example_db)) = Some 5 \<and>
   map_option understanding_level
     (select_concept_by_id 2 (update_concept_understanding 2 (- 3) 7 example_db)) = Some 1 \<and>
   map_option understanding_level
     (select_concept_by_id 2 (update_concept_understanding 2 4 7 example_db)) = Some 4"
proof -
  have s: "select_concept_by_id 2 example_db = Some (example_row 2 ''phishing'')"
    by (simp add: select_concept_by_id_def example_db_def example_row_def)
  from update_concept_understanding_clamps[OF s, of 9 7]
       update_concept_understanding_clamps[OF s, of "- 3" 7]
       update_concept_understanding_clamps[OF s, of 4 7] s
  show ?thesis by auto
qed

subsection \<open>The upsert of save_concept\<close>

lemma find_append_cases:
  "find P (xs @ ys) = (case find P xs of Some x \<Rightarrow> Some x | None \<Rightarrow> find P ys)"
  by (induction xs) auto

lemma select_by_name_Some:
  "select_concept_by_name n d = Some row \<Longrightarrow> row \<in> set (concepts_table d) \<and> name row = n"
  unfolding select_concept_by_name_def by (auto simp: find_Some_iff)

lemma select_by_name_None:
  "select_concept_by_name n d = None \<longleftrightarrow> n \<notin> name ` set (concepts_table d)"
  unfolding select_concept_by_name_def by (auto simp: find_None_iff)

lemma save_concept_existing:
  assumes wf: "concepts_wf d" and sel: "select_concept_by_name n d = Some row"
      and rng: "sqlite_integer (times_discussed row + 1)"
  shows "save_concept n cat t d =
           Inr (row_id row,
                d\<lparr>concepts_table :=
                    map (\<lambda>r. if name r = n then r\<lparr>times_discussed := times_discussed r + 1\<rparr> else r)
                        (concepts_table d)\<rparr>)"
proof -
  from select_by_name_Some[OF sel] have m: "row \<in> set (concepts_table d)" and nm: "name row = n"
    by auto
  from wf have di: "inj_on row_id (set (concepts_table d))" and dn: "inj_on name (set (concepts_table d))"
    by (auto simp: concepts_wf_def distinct_map)
  have "(row_id r = row_id row) = (name r = n)" if "r \<in> set (concepts_table d)" for r
    using that m nm di dn by (auto dest: inj_onD)
  then have "map (\<lambda>r. if row_id r = row_id row then r\<lparr>times_discussed := times_discussed row + 1\<rparr> else r)
                 (concepts_table d)
             = map (\<lambda>r. if name r = n then r\<lparr>times_discussed := times_discussed r + 1\<rparr> else r)
                 (concepts_table d)"
    using m nm di dn by (intro map_cong) (auto dest: inj_onD)
  with sel rng show ?thesis by (simp add: save_concept_def)
qed

lemma save_concept_new:
  assumes "select_concept_by_name n d = None" and "int (concepts_seq d) < sqlite_max_integer"
  shows "save_concept n cat t d =
           Inr (concepts_seq d + 1,
                d\<lparr>concepts_table := concepts_table d @
                     [\<lparr>row_id = concepts_seq d + 1, name = n, category = cat, first_seen_at = t,
                       times_discussed = 1, understanding_level = 1, last_reviewed_at = None\<rparr>],
                  concepts_seq := concepts_seq d + 1\<rparr>)"
  using assms by (simp add: save_concept_def Let_def)

text \<open>
  Where the stored count is the largest SQLite integer, the \<^verbatim>\<open>UPDATE\<close> raises and no
  count changes; where the ids are used up, the \<^verbatim>\<open>INSERT\<close> raises.
\<close>

lemma save_concept_count_overflow:
  assumes "select_concept_by_name n d = Some row" and "times_discussed row = sqlite_max_integer"
  shows "save_concept n cat t d = Inl OverflowError"
  using assms by (simp add: save_concept_def sqlite_integer_def)

lemma save_concept_ids_used_up:
  assumes "select_concept_by_name n d = None" and "int (concepts_seq d) \<ge> sqlite_max_integer"
  shows "save_concept n cat t d = Inl OperationalError"
  using assms by (simp add: save_concept_def)

lemma count_name_one:
  "distinct (map name xs) \<Longrightarrow> r \<in> set xs \<Longrightarrow> length (filter (\<lambda>x. name x = name r) xs) = 1"
proof (induction xs)
  case Nil
  then show ?case by simp
next
  case (Cons x xs)
  show ?case
  proof (cases "name x = name r")
    case True
    from Cons.prems have "name x \<notin> name ` set xs" by simp
    with True have "filter (\<lambda>y. name y = name r) xs = []"
      unfolding filter_empty_conv by (metis imageI)
    with True show ?thesis by simp
  next
    case False
    with Cons show ?thesis by auto
  qed
qed

lemma save_concept_wf:
  assumes wf: "concepts_wf d" and s: "save_concept n cat t d = Inr (cid, d')"
  shows "concepts_wf d'"
proof (cases "select_concept_by_name n d")
  case None
  then have nn: "n \<notin> name ` set (concepts_table d)" by (simp add: select_by_name_None)
  from None s have left: "int (concepts_seq d) < sqlite_max_integer"
    by (auto simp: save_concept_def split: if_splits)
  from s have d': "d' = d\<lparr>concepts_table := concepts_table d @
                     [\<lparr>row_id = concepts_seq d + 1, name = n, category = cat, first_seen_at = t,
                       times_discussed = 1, understanding_level = 1, last_reviewed_at = None\<rparr>],
                  concepts_seq := concepts_seq d + 1\<rparr>"
    by (auto simp: save_concept_new[OF None left])
  from wf have le: "\<forall>r \<in> set (concepts_table d). row_id r \<le> concepts_seq d"
    by (simp add: concepts_wf_def list_all_iff)
  then have fresh: "concepts_seq d + 1 \<notin> row_id ` set (concepts_table d)" by fastforce
  from le have le': "\<forall>r \<in> set (concepts_table d). row_id r \<le> concepts_seq d + 1" by fastforce
  from wf nn fresh le' show ?thesis
    unfolding d' by (simp add: concepts_wf_def list_all_iff)
next
  case (Some row)
  with s have rng: "sqlite_integer (times_discussed row + 1)"
    by (auto simp: save_concept_def split: if_splits)
  let ?g = "\<lambda>r. if name r = n then r\<lparr>times_discussed := times_discussed r + 1\<rparr> else r"
  have e: "map (row_id \<circ> ?g) xs = map row_id xs" "map (name \<circ> ?g) xs = map name xs" for xs
    by (induction xs) auto
  from s have "d' = d\<lparr>concepts_table := map ?g (concepts_table d)\<rparr>"
    by (simp add: save_concept_existing[OF wf Some rng])
  then show ?thesis
    using wf by (auto simp: concepts_wf_def list_all_iff e)
qed

lemma select_after_existing:
  assumes wf: "concepts_wf d" and sel: "select_concept_by_name n d = Some row"
      and s: "save_concept n cat t d = Inr (cid, d')"
  shows "select_concept_by_name n d' = Some (row\<lparr>times_discussed := times_discussed row + 1\<rparr>)"
proof -
  from sel s have rng: "sqlite_integer (times_discussed row + 1)"
    by (auto simp: save_concept_def split: if_splits)
  from s have "d' = d\<lparr>concepts_table :=
                    map (\<lambda>r. if name r = n then r\<lparr>times_discussed := times_discussed r + 1\<rparr> else r)
                        (concepts_table d)\<rparr>"
    by (simp add: save_concept_existing[OF wf sel rng])
  with sel select_by_name_Some[OF sel] show ?thesis
    by (simp add: select_concept_by_name_def find_map_preserve)
qed

text \<open>
  Claim C9. \<^verbatim>\<open>save_concept\<close> is an upsert keyed by name. On a concepts table that
  satisfies the schema's constraints: when a row with the name exists and its count is
  an SQLite integer below the largest, its id is returned, its \<^verbatim>\<open>times_discussed\<close> goes
  up by 1, no row is added and the rows of other names stay; when none exists and an id
  is left, one row with \<^verbatim>\<open>times_discussed = 1\<close> is appended; and saving a new name twice
  leaves exactly one row of that name, with \<^verbatim>\<open>times_discussed = 2\<close>. The constraints hold
  again afterwards.
\<close>

theorem save_concept_upsert:
  assumes wf: "concepts_wf d"
  shows
    "(\<forall>row. select_concept_by_name n d = Some row \<and>
            sqlite_integer (times_discussed row) \<and> times_discussed row < sqlite_max_integer \<longrightarrow>
       (\<exists>d'. save_concept n cat t d = Inr (row_id row, d') \<and> concepts_wf d' \<and>
             select_concept_by_name n d'
               = Some (row\<lparr>times_discussed := times_discussed row + 1\<rparr>) \<and>
             length (concepts_table d') = length (concepts_table d) \<and>
             (\<forall>r \<in> set (concepts_table d). name r \<noteq> n \<longrightarrow> r \<in> set (concepts_table d')))) \<and>
     (select_concept_by_name n d = None \<and> int (concepts_seq d) < sqlite_max_integer \<longrightarrow>
       (\<exists>cid d1. save_concept n cat t d = Inr (cid, d1) \<and> concepts_wf d1 \<and>
          concepts_table d1 = concepts_table d @
            [\<lparr>row_id = cid, name = n, category = cat, first_seen_at = t,
              times_discussed = 1, understanding_level = 1, last_reviewed_at = None\<rparr>] \<and>
          (\<exists>d2. save_concept n cat' t' d1 = Inr (cid, d2) \<and>
                length (filter (\<lambda>r. name r = n) (concepts_table d2)) = 1 \<and>
                map_option times_discussed (select_concept_by_name n d2) = Some 2 \<and>
                length (concepts_table d2) = length (concepts_table d) + 1)))"
proof (intro conjI allI impI)
  fix row
  assume h: "select_concept_by_name n d = Some row \<and>
            sqlite_integer (times_discussed row) \<and> times_discussed row < sqlite_max_integer"
  then have sel: "select_concept_by_name n d = Some row"
    and rng: "sqlite_integer (times_discussed row + 1)"
    by (auto simp: sqlite_integer_def)
  let ?d' = "d\<lparr>concepts_table :=
                map (\<lambda>r. if name r = n then r\<lparr>times_discussed := times_discussed r + 1\<rparr> else r)
                    (concepts_table d)\<rparr>"
  have s: "save_concept n cat t d = Inr (row_id row, ?d')"
    by (rule save_concept_existing[OF wf sel rng])
  have "concepts_wf ?d'" by (rule save_concept_wf[OF wf s])
  moreover have "select_concept_by_name n ?d' = Some (row\<lparr>times_discussed := times_discussed row + 1\<rparr>)"
    by (rule select_after_existing[OF wf sel s])
  moreover have "length (concepts_table ?d') = length (concepts_table d)" by simp
  moreover have "\<forall>r \<in> set (concepts_table d). name r \<noteq> n \<longrightarrow> r \<in> set (concepts_table ?d')"
    by force
  ultimately show "\<exists>d'. save_concept n cat t d = Inr (row_id row, d') \<and> concepts_wf d' \<and>
             select_concept_by_name n d'
               = Some (row\<lparr>times_discussed := times_discussed row + 1\<rparr>) \<and>
             length (concepts_table d') = length (concepts_table d) \<and>
             (\<forall>r \<in> set (concepts_table d). name r \<noteq> n \<longrightarrow> r \<in> set (concepts_table d'))"
    using s by blast
next
  assume h: "select_concept_by_name n d = None \<and> int (concepts_seq d) < sqlite_max_integer"
  then have none: "select_concept_by_name n d = None" and left: "int (concepts_seq d) < sqlite_max_integer"
    by simp_all
  let ?cid = "concepts_seq d + 1"
  let ?new = "\<lparr>row_id = ?cid, name = n, category = cat, first_seen_at = t,
           times_discussed = 1, understanding_level = 1, last_reviewed_at = None\<rparr>"
  let ?d1 = "d\<lparr>concepts_table := concepts_table d @ [?new], concepts_seq := ?cid\<rparr>"
  have s1: "save_concept n cat t d = Inr (?cid, ?d1)"
    by (rule save_concept_new[OF none left])
  have wf1: "concepts_wf ?d1" by (rule save_concept_wf[OF wf s1])
  from none have "find (\<lambda>r. name r = n) (concepts_table d) = None"
    by (simp add: select_concept_by_name_def)
  then have sel1: "select_concept_by_name n ?d1 = Some ?new"
    by (simp add: select_concept_by_name_def find_append_cases)
  have rng1: "sqlite_integer (times_discussed ?new + 1)"
    by (simp add: sqlite_integer_def sqlite_max_integer_def)
  let ?d2 = "?d1\<lparr>concepts_table :=
                map (\<lambda>r. if name r = n then r\<lparr>times_discussed := times_discussed r + 1\<rparr> else r)
                    (concepts_table ?d1)\<rparr>"
  have s2: "save_concept n cat' t' ?d1 = Inr (?cid, ?d2)"
    using save_concept_existing[OF wf1 sel1 rng1, of cat' t'] by simp
  have wf2: "concepts_wf ?d2" by (rule save_concept_wf[OF wf1 s2])
  have sel2: "select_concept_by_name n ?d2 = Some (?new\<lparr>times_discussed := times_discussed ?new + 1\<rparr>)"
    by (rule select_after_existing[OF wf1 sel1 s2])
  from select_by_name_Some[OF sel2] wf2
  have one: "length (filter (\<lambda>r. name r = n) (concepts_table ?d2)) = 1"
    using count_name_one[of "concepts_table ?d2" "?new\<lparr>times_discussed := times_discussed ?new + 1\<rparr>"]
    by (simp add: concepts_wf_def)
  have two: "map_option times_discussed (select_concept_by_name n ?d2) = Some 2"
    using sel2 by simp
  have len: "length (concepts_table ?d2) = length (concepts_table d) + 1" by simp
  have tab: "concepts_table ?d1 = concepts_table d @
            [\<lparr>row_id = ?cid, name = n, category = cat, first_seen_at = t,
              times_discussed = 1, understanding_level = 1, last_reviewed_at = None\<rparr>]"
    by simp
  from s1 wf1 tab s2 one two len
  show "\<exists>cid d1. save_concept n cat t d = Inr (cid, d1) \<and> concepts_wf d1 \<and>
          concepts_table d1 = concepts_table d @
            [\<lparr>row_id = cid, name = n, category = cat, first_seen_at = t,
              times_discussed = 1, understanding_level = 1, last_reviewed_at = None\<rparr>] \<and>
          (\<exists>d2. save_concept n cat' t' d1 = Inr (cid, d2) \<and>
                length (filter (\<lambda>r. name r = n) (concepts_table d2)) = 1 \<and>
                map_option times_discussed (select_concept_by_name n d2) = Some 2 \<and>
                length (concepts_table d2) = length (concepts_table d) + 1)"
    by blast
qed

text \<open>
  The concept \<^verbatim>\<open>firewall\<close> saved twice into the empty store, and \<^verbatim>\<open>phishing\<close> saved into
  a store that has it.
\<close>

theorem save_concept_upsert_witness:
  "concepts_wf empty_db \<and> select_concept_by_name ''firewall'' empty_db = None \<and>
   int (concepts_seq empty_db) < sqlite_max_integer \<and>
   (\<exists>cid d1 d2.
      save_concept ''firewall'' (Some ''Network Security'') 5 empty_db = Inr (cid, d1) \<and>
      save_concept ''firewall'' (Some ''Network Security'') 8 d1 = Inr (cid, d2) \<and>
      length (filter (\<lambda>r. name r = ''firewall'') (concepts_table d2)) = 1 \<and>
      map_option times_discussed (select_concept_by_name ''firewall'' d2) = Some 2 \<and>
      length (concepts_table d2) = 1) \<and>
   concepts_wf example_db \<and>
   select_concept_by_name ''phishing'' example_db = Some (example_row 2 ''phishing'') \<and>
   sqlite_integer (times_discussed (example_row 2 ''phishing'')) \<and>
   times_discussed (example_row 2 ''phishing'') < sqlite_max_integer \<and>
   (\<exists>d'. save_concept ''phishing'' None 9 example_db = Inr (2, d') \<and>
         map_option times_discussed (select_concept_by_name ''phishing'' d') = Some 2 \<and>
         length (concepts_table d') = 2)"
proof -
  have wf0: "concepts_wf empty_db" by (simp add: concepts_wf_def empty_db_def)
  have n0: "select_concept_by_name ''firewall'' empty_db = None"
    by (simp add: select_concept_by_name_def empty_db_def)
  have b0: "int (concepts_seq empty_db) < sqlite_max_integer"
    by (simp add: empty_db_def sqlite_max_integer_def)
  have wf1: "concepts_wf example_db"
    by (simp add: concepts_wf_def example_db_def example_row_def)
  have s1: "select_concept_by_name ''phishing'' example_db = Some (example_row 2 ''phishing'')"
    by (simp add: select_concept_by_name_def example_db_def example_row_def)
  have b1: "sqlite_integer (times_discussed (example_row 2 ''phishing''))"
           "times_discussed (example_row 2 ''phishing'') < sqlite_max_integer"
    by (simp_all add: example_row_def sqlite_integer_def sqlite_max_integer_def)
  have l0: "length (concepts_table empty_db) = 0" by (simp add: empty_db_def)
  have l1: "length (concepts_table example_db) = 2" by (simp add: example_db_def)
  have i1: "row_id (example_row 2 ''phishing'') = 2" "times_discussed (example_row 2 ''phishing'') = 1"
    by (simp_all add: example_row_def)
  from save_concept_upsert[OF wf0, of "''firewall''" "Some ''Network Security''" 5 "Some ''Network Security''" 8]
       n0 b0 l0
  have first: "\<exists>cid d1 d2.
      save_concept ''firewall'' (Some ''Network Security'') 5 empty_db = Inr (cid, d1) \<and>
      save_concept ''firewall'' (Some ''Network Security'') 8 d1 = Inr (cid, d2) \<and>
      length (filter (\<lambda>r. name r = ''firewall'') (concepts_table d2)) = 1 \<and>
      map_option times_discussed (select_concept_by_name ''firewall'' d2) = Some 2 \<and>
      length (concepts_table d2) = 1"
    by fastforce
  from save_concept_upsert[OF wf1, of "''phishing''" None 9] s1 b1 l1 i1
  have second: "\<exists>d'. save_concept ''phishing'' None 9 example_db = Inr (2, d') \<and>
         map_option times_discussed (select_concept_by_name ''phishing'' d') = Some 2 \<and>
         length (concepts_table d') = 2"
    by fastforce
  from wf0 n0 b0 first wf1 s1 b1 second show ?thesis by blast
qed

section \<open>Properties of the quiz rating\<close>


lemma fold_update_table:
  "concepts_table (fold (\<lambda>concept d. update_concept_understanding (row_id concept) level t d) cs d)
     = map (\<lambda>r. if row_id r \<in> row_id ` set cs then rate_row level t r else r) (concepts_table d)"
proof (induction cs arbitrary: d)
  case Nil
  then show ?case by simp
next
  case (Cons c cs)
  let ?d1 = "update_concept_understanding (row_id c) level t d"
  have "concepts_table (fold (\<lambda>concept d. update_concept_understanding (row_id concept) level t d) (c # cs) d)
        = map (\<lambda>r. if row_id r \<in> row_id ` set cs then rate_row level t r else r) (concepts_table ?d1)"
    by (simp add: Cons.IH)
  also have "\<dots> = map (\<lambda>r. if row_id r \<in> row_id ` set (c # cs) then rate_row level t r else r)
                      (concepts_table d)"
    by (auto simp: update_concept_understanding_def rate_row_def)
  finally show ?case .
qed

text \<open>
  Claim C4. One rating is applied to every concept of the quiz batch: after
  \<^verbatim>\<open>update_quiz_understanding(level)\<close>, the stored row of each concept in
  \<^verbatim>\<open>quiz_concepts\<close> has \<^verbatim>\<open>understanding_level\<close> equal to the level (clamped to 1..5, so
  the level itself for the ratings 1 to 5) and \<^verbatim>\<open>last_reviewed_at\<close> equal to the time of
  the rating; the quiz is then over.
\<close>

theorem update_quiz_understanding_blanket:
  "(\<forall>c \<in> set (quiz_concepts a). \<forall>r.
      select_concept_by_id (row_id c) (db a) = Some r \<longrightarrow>
      (\<exists>r'. select_concept_by_id (row_id c) (db (update_quiz_understanding level t a)) = Some r' \<and>
            understanding_level r' = max 1 (min 5 level) \<and>
            (1 \<le> level \<and> level \<le> 5 \<longrightarrow> understanding_level r' = level) \<and>
            last_reviewed_at r' = Some t)) \<and>
   \<not> quiz_mode (update_quiz_understanding level t a) \<and>
   \<not> awaiting_rating (update_quiz_understanding level t a) \<and>
   quiz_state (update_quiz_understanding level t a) = None"
proof -
  have "select_concept_by_id (row_id c) (db (update_quiz_understanding level t a)) = Some (rate_row level t r)"
    if "c \<in> set (quiz_concepts a)" and "select_concept_by_id (row_id c) (db a) = Some r" for c r
  proof -
    have p: "(row_id (if row_id r \<in> row_id ` set (quiz_concepts a) then rate_row level t r else r) = row_id c)
           = (row_id r = row_id c)" for r
      by (simp add: rate_row_def)
    from that(2) have "row_id r = row_id c"
      by (auto simp: select_concept_by_id_def find_Some_iff)
    with that show ?thesis
      unfolding select_concept_by_id_def update_quiz_understanding_def
      by (simp add: fold_update_table find_map_preserve[where P="\<lambda>r. row_id r = row_id c", OF p])
  qed
  then show ?thesis
    by (auto simp: rate_row_def) (simp_all add: update_quiz_understanding_def)
qed

text \<open>
  The batch of the two stored concepts, rated 5 at time 9 by the button of the rating
  screen: both rows hold level 5 and review time 9.
\<close>

theorem update_quiz_understanding_blanket_witness:
  "(let a = example_app\<lparr>quiz_mode := True, awaiting_rating := True,
                          quiz_concepts := [example_row 1 ''firewall'', example_row 2 ''phishing'']\<rparr>;
        a' = update_quiz_understanding 5 9 a
    in main \<lparr>clicked = Some (Rating 5), chat_text = None, llm = OtherException, now = 9\<rparr> a = Inr a' \<and>
       map_option understanding_level (select_concept_by_id 1 (db a')) = Some 5 \<and>
       map_option last_reviewed_at (select_concept_by_id 1 (db a')) = Some (Some 9) \<and>
       map_option understanding_level (select_concept_by_id 2 (db a')) = Some 5 \<and>
       map_option last_reviewed_at (select_concept_by_id 2 (db a')) = Some (Some 9))"
proof -
  let ?a = "example_app\<lparr>quiz_mode := True, awaiting_rating := True,
                          quiz_concepts := [example_row 1 ''firewall'', example_row 2 ''phishing'']\<rparr>"
  have m: "main \<lparr>clicked = Some (Rating 5), chat_text = None, llm = OtherException, now = 9\<rparr> ?a
             = Inr (update_quiz_understanding 5 9 ?a)"
    by (simp add: main_def render_understanding_rating_def example_app_def)
  have s1: "select_concept_by_id (row_id (example_row 1 ''firewall'')) (db ?a) = Some (example_row 1 ''firewall'')"
    and s2: "select_concept_by_id (row_id (example_row 2 ''phishing'')) (db ?a) = Some (example_row 2 ''phishing'')"
    by (simp_all add: select_concept_by_id_def example_app_def example_db_def example_row_def)
  have i1: "row_id (example_row 1 ''firewall'') = 1" and i2: "row_id (example_row 2 ''phishing'') = 2"
    by (simp_all add: example_row_def)
  from update_quiz_understanding_blanket[of ?a 5 9] s1 s2
  have "\<exists>r'. select_concept_by_id (row_id (example_row 1 ''firewall'')) (db (update_quiz_understanding 5 9 ?a)) = Some r' \<and>
            understanding_level r' = 5 \<and> last_reviewed_at r' = Some 9"
   and "\<exists>r'. select_concept_by_id (row_id (example_row 2 ''phishing'')) (db (update_quiz_understanding 5 9 ?a)) = Some r' \<and>
            understanding_level r' = 5 \<and> last_reviewed_at r' = Some 9"
    by fastforce+
  with m show ?thesis unfolding i1 i2 Let_def by auto
qed

section \<open>Properties of the reply parser\<close>

lemma lazy_dots_exists:
  "mid \<noteq> [] \<Longrightarrow> la post \<Longrightarrow> \<exists>g. lazy_dots la (mid @ post) = Some g"
proof (induction mid)
  case Nil
  then show ?case by simp
next
  case (Cons c mid)
  then show ?case by (cases "mid = []") auto
qed

lemma spaces_then_exists: "k s = Some g \<Longrightarrow> \<exists>g'. spaces_then k s = Some g'"
  by (cases s) (auto split: option.splits)

lemma spaces_then_Some: "spaces_then k s = Some g \<Longrightarrow> \<exists>s'. k s' = Some g"
  by (induction k s rule: spaces_then.induct) (auto split: if_splits option.splits)

lemma search_exists_here: "m s = Some g \<Longrightarrow> \<exists>g'. search m s = Some g'"
  by (cases s) auto

lemma search_exists: "m s = Some g \<Longrightarrow> \<exists>g'. search m (pre @ s) = Some g'"
  by (induction pre) (auto simp: search_exists_here split: option.splits)

lemma search_Some: "search m s = Some g \<Longrightarrow> \<exists>s'. m s' = Some g"
  by (induction m s rule: search.induct) (auto split: option.splits)

lemma search_lazy_exists:
  assumes "mid \<noteq> []" and "la post"
  shows "\<exists>g. search (match_here lit (lazy_dots la)) (pre @ lit @ mid @ post) = Some g"
proof -
  from assms have "\<exists>g. lazy_dots la (mid @ post) = Some g" by (rule lazy_dots_exists)
  then obtain g where "lazy_dots la (mid @ post) = Some g" ..
  then have "\<exists>g'. spaces_then (lazy_dots la) (mid @ post) = Some g'"
    by (rule spaces_then_exists[where k="lazy_dots la"])
  then obtain g' where "spaces_then (lazy_dots la) (mid @ post) = Some g'" ..
  then have "match_here lit (lazy_dots la) (lit @ mid @ post) = Some g'"
    by (simp add: match_here_def)
  then show ?thesis
    by (rule search_exists[where m="match_here lit (lazy_dots la)"])
qed

lemma search_literal_contains: "search (match_here lit k) s = Some g \<Longrightarrow> contains lit s"
  by (induction s) (auto simp: match_here_def split: option.splits if_splits)

lemma parse_options_keys:
  "length (parse_options text) = 4 \<Longrightarrow> map fst (parse_options text) = [''A'', ''B'', ''C'', ''D'']"
  by (auto simp: parse_options_def split: option.splits)

lemma parse_options_all:
  assumes "parse_option text ''A'' \<noteq> None" "parse_option text ''B'' \<noteq> None"
          "parse_option text ''C'' \<noteq> None" "parse_option text ''D'' \<noteq> None"
  shows "length (parse_options text) = 4"
  using assms by (auto simp: parse_options_def)

lemma parse_option_exists:
  assumes "search (match_here (letter @ '')'')
                    (lazy_dots (\<lambda>s. line_marker ''BCD'' '')'' s \<or> prefix ''CORRECT:'' s))) text = Some g"
  shows "parse_option text letter \<noteq> None"
  using assms by (simp add: parse_option_def)

lemma match_here_Some: "match_here lit k s = Some g \<Longrightarrow> \<exists>s'. spaces_then k s' = Some g"
  unfolding match_here_def by (cases "prefix lit s") auto

lemma one_letter_Some: "one_letter letters s = Some g \<Longrightarrow> \<exists>c \<in> set letters. g = [c]"
  unfolding one_letter_def by (cases s) (auto split: if_splits)

lemma correct_letter:
  assumes "search (match_here ''CORRECT:'' (one_letter ''ABCD'')) s = Some g"
  shows "g \<in> {''A'', ''B'', ''C'', ''D''}"
proof -
  from search_Some[OF assms] obtain s1 where "match_here ''CORRECT:'' (one_letter ''ABCD'') s1 = Some g" ..
  from match_here_Some[OF this] obtain s2 where "spaces_then (one_letter ''ABCD'') s2 = Some g" ..
  then have "\<exists>s3. one_letter ''ABCD'' s3 = Some g"
    by (rule spaces_then_Some[where k="one_letter ''ABCD''"])
  then obtain s3 where "one_letter ''ABCD'' s3 = Some g" ..
  from one_letter_Some[OF this] obtain c where "c \<in> set ''ABCD''" and "g = [c]" by blast
  then show ?thesis by auto
qed

lemma parse_Some_shape:
  assumes "parse_quiz_response text = Some r"
  shows "map fst (options r) = [''A'', ''B'', ''C'', ''D''] \<and> correct r \<in> {''A'', ''B'', ''C'', ''D''}"
proof -
  from assms have len: "length (parse_options text) = 4" and o: "options r = parse_options text"
    by (auto simp: parse_quiz_response_def Let_def split: option.splits if_splits)
  from assms have "search (match_here ''CORRECT:'' (one_letter ''ABCD'')) text = Some (correct r)"
    by (auto simp: parse_quiz_response_def Let_def split: option.splits if_splits)
  from correct_letter[OF this] parse_options_keys[OF len] o show ?thesis by simp
qed

lemma isspace_space: "isspace CHR '' ''"
  by code_simp

lemma not_isspace_letter: "l \<in> set ''ABCD'' \<Longrightarrow> \<not> isspace l"
proof -
  have "\<not> isspace CHR ''A''" "\<not> isspace CHR ''B''" "\<not> isspace CHR ''C''" "\<not> isspace CHR ''D''"
    by code_simp+
  then show "l \<in> set ''ABCD'' \<Longrightarrow> \<not> isspace l" by auto
qed

lemma search_correct_exists:
  assumes "l \<in> set ''ABCD''"
  shows "\<exists>g. search (match_here ''CORRECT:'' (one_letter ''ABCD'')) (pre @ ''CORRECT: '' @ l # rest) = Some g"
proof -
  from assms have "one_letter ''ABCD'' (l # rest) = Some [l]"
    by (simp add: one_letter_def)
  with not_isspace_letter[OF assms]
  have "match_here ''CORRECT:'' (one_letter ''ABCD'') (''CORRECT: '' @ l # rest) = Some [l]"
    by (simp add: match_here_def isspace_space)
  then show ?thesis
    by (rule search_exists[where m="match_here ''CORRECT:'' (one_letter ''ABCD'')"])
qed

lemma format_response_parses:
  assumes l: "l \<in> set ''ABCD''"
  shows "\<exists>r. parse_quiz_response (format_response q a b c d l ce ea eb ec ed) = Some r"
proof -
  let ?t = "format_response q a b c d l ce ea eb ec ed"
  let ?tail = "''CORRECT: '' @ [l] @ ''\<newline>CORRECT_EXPLANATION: '' @ ce @
     ''\<newline>A_EXPLANATION: '' @ ea @ ''\<newline>B_EXPLANATION: '' @ eb @
     ''\<newline>C_EXPLANATION: '' @ ec @ ''\<newline>D_EXPLANATION: '' @ ed"
  let ?la = "\<lambda>s. line_marker ''BCD'' '')'' s \<or> prefix ''CORRECT:'' s"
  have la: "?la ?tail" by simp
  have q: "\<exists>g. search (match_here ''QUESTION:'' (lazy_dots (line_marker ''ABCD'' '')''))) ?t = Some g"
  proof -
    let ?post = "''\<newline>A) '' @ a @ ''\<newline>B) '' @ b @ ''\<newline>C) '' @ c @ ''\<newline>D) '' @ d @ ''\<newline>'' @ ?tail"
    have "?t = [] @ ''QUESTION:'' @ ('' '' @ q) @ ?post"
      by (simp add: format_response_def)
    moreover have "line_marker ''ABCD'' '')'' ?post"
      by (simp add: line_marker_def)
    ultimately show ?thesis
      using search_lazy_exists[of "'' '' @ q" "line_marker ''ABCD'' '')''" ?post "''QUESTION:''" "[]"]
      by auto
  qed
  have oa: "parse_option ?t ''A'' \<noteq> None"
  proof -
    have "?t = (''QUESTION: '' @ q @ ''\<newline>'') @ (''A'' @ '')'') @
                ('' '' @ a @ ''\<newline>B) '' @ b @ ''\<newline>C) '' @ c @ ''\<newline>D) '' @ d @ ''\<newline>'') @ ?tail"
      by (simp add: format_response_def)
    with la search_lazy_exists[of "'' '' @ a @ ''\<newline>B) '' @ b @ ''\<newline>C) '' @ c @ ''\<newline>D) '' @ d @ ''\<newline>''"
          ?la ?tail "''A'' @ '')''" "''QUESTION: '' @ q @ ''\<newline>''"]
    obtain g where "search (match_here (''A'' @ '')'') (lazy_dots ?la)) ?t = Some g" by auto
    then show ?thesis by (rule parse_option_exists)
  qed
  have ob: "parse_option ?t ''B'' \<noteq> None"
  proof -
    have "?t = (''QUESTION: '' @ q @ ''\<newline>A) '' @ a @ ''\<newline>'') @ (''B'' @ '')'') @
                ('' '' @ b @ ''\<newline>C) '' @ c @ ''\<newline>D) '' @ d @ ''\<newline>'') @ ?tail"
      by (simp add: format_response_def)
    with la search_lazy_exists[of "'' '' @ b @ ''\<newline>C) '' @ c @ ''\<newline>D) '' @ d @ ''\<newline>''"
          ?la ?tail "''B'' @ '')''" "''QUESTION: '' @ q @ ''\<newline>A) '' @ a @ ''\<newline>''"]
    obtain g where "search (match_here (''B'' @ '')'') (lazy_dots ?la)) ?t = Some g" by auto
    then show ?thesis by (rule parse_option_exists)
  qed
  have oc: "parse_option ?t ''C'' \<noteq> None"
  proof -
    have "?t = (''QUESTION: '' @ q @ ''\<newline>A) '' @ a @ ''\<newline>B) '' @ b @ ''\<newline>'') @ (''C'' @ '')'') @
                ('' '' @ c @ ''\<newline>D) '' @ d @ ''\<newline>'') @ ?tail"
      by (simp add: format_response_def)
    with la search_lazy_exists[of "'' '' @ c @ ''\<newline>D) '' @ d @ ''\<newline>''"
          ?la ?tail "''C'' @ '')''" "''QUESTION: '' @ q @ ''\<newline>A) '' @ a @ ''\<newline>B) '' @ b @ ''\<newline>''"]
    obtain g where "search (match_here (''C'' @ '')'') (lazy_dots ?la)) ?t = Some g" by auto
    then show ?thesis by (rule parse_option_exists)
  qed
  have od: "parse_option ?t ''D'' \<noteq> None"
  proof -
    have "?t = (''QUESTION: '' @ q @ ''\<newline>A) '' @ a @ ''\<newline>B) '' @ b @ ''\<newline>C) '' @ c @ ''\<newline>'') @ (''D'' @ '')'') @
                ('' '' @ d @ ''\<newline>'') @ ?tail"
      by (simp add: format_response_def)
    with la search_lazy_exists[of "'' '' @ d @ ''\<newline>''"
          ?la ?tail "''D'' @ '')''" "''QUESTION: '' @ q @ ''\<newline>A) '' @ a @ ''\<newline>B) '' @ b @ ''\<newline>C) '' @ c @ ''\<newline>''"]
    obtain g where "search (match_here (''D'' @ '')'') (lazy_dots ?la)) ?t = Some g" by auto
    then show ?thesis by (rule parse_option_exists)
  qed
  have len: "length (parse_options ?t) = 4"
    by (rule parse_options_all[OF oa ob oc od])
  have co: "\<exists>g. search (match_here ''CORRECT:'' (one_letter ''ABCD'')) ?t = Some g"
  proof -
    have "?t = (''QUESTION: '' @ q @ ''\<newline>A) '' @ a @ ''\<newline>B) '' @ b @ ''\<newline>C) '' @ c @ ''\<newline>D) '' @ d @ ''\<newline>'')
               @ ''CORRECT: '' @ l # (''\<newline>CORRECT_EXPLANATION: '' @ ce @
     ''\<newline>A_EXPLANATION: '' @ ea @ ''\<newline>B_EXPLANATION: '' @ eb @
     ''\<newline>C_EXPLANATION: '' @ ec @ ''\<newline>D_EXPLANATION: '' @ ed)"
      by (simp add: format_response_def)
    with search_correct_exists[OF l] show ?thesis by metis
  qed
  have ce: "\<exists>g. search (match_here ''CORRECT_EXPLANATION:'' (lazy_dots (line_marker ''ABCD'' ''_EXPLANATION:''))) ?t = Some g"
  proof -
    let ?post = "''\<newline>A_EXPLANATION: '' @ ea @ ''\<newline>B_EXPLANATION: '' @ eb @
     ''\<newline>C_EXPLANATION: '' @ ec @ ''\<newline>D_EXPLANATION: '' @ ed"
    let ?pre = "''QUESTION: '' @ q @ ''\<newline>A) '' @ a @ ''\<newline>B) '' @ b @ ''\<newline>C) '' @ c @ ''\<newline>D) '' @ d @ ''\<newline>CORRECT: '' @ [l] @ ''\<newline>''"
    have "?t = ?pre @ ''CORRECT_EXPLANATION:'' @ ('' '' @ ce) @ ?post"
      by (simp add: format_response_def)
    moreover have "line_marker ''ABCD'' ''_EXPLANATION:'' ?post"
      by (simp add: line_marker_def)
    ultimately show ?thesis
      using search_lazy_exists[of "'' '' @ ce" "line_marker ''ABCD'' ''_EXPLANATION:''" ?post "''CORRECT_EXPLANATION:''" ?pre]
      by auto
  qed
  from q len co ce show ?thesis
    by (auto simp: parse_quiz_response_def Let_def)
qed

text \<open>
  Claim C5. A reply in the format of the prompt (a \<^verbatim>\<open>QUESTION:\<close> line, the option lines
  \<^verbatim>\<open>A)\<close> to \<^verbatim>\<open>D)\<close>, a \<^verbatim>\<open>CORRECT:\<close> line naming one of A to D, a \<^verbatim>\<open>CORRECT_EXPLANATION:\<close>
  line and the four \<^verbatim>\<open>_EXPLANATION:\<close> lines, whatever the texts filled in) is parsed to a
  result; and every result of \<^verbatim>\<open>parse_quiz_response\<close> has exactly the option keys A, B, C,
  D and a correct letter among A, B, C, D.
\<close>

theorem parse_quiz_response_well_formed:
  "(l \<in> set ''ABCD'' \<longrightarrow>
      (\<exists>r. parse_quiz_response (format_response q a b c d l ce ea eb ec ed) = Some r)) \<and>
   (\<forall>r. parse_quiz_response text = Some r \<longrightarrow>
      map fst (options r) = [''A'', ''B'', ''C'', ''D''] \<and>
      correct r \<in> {''A'', ''B'', ''C'', ''D''})"
  using format_response_parses parse_Some_shape by blast

text \<open>The reply with one-letter texts and correct answer B, and what it is parsed to.\<close>

theorem parse_quiz_response_well_formed_witness:
  "CHR ''B'' \<in> set ''ABCD'' \<and>
   parse_quiz_response (format_response ''q'' ''a'' ''b'' ''c'' ''d'' CHR ''B'' ''e'' ''x'' ''y'' ''z'' ''w'')
     = Some \<lparr>question = ''q'',
             options = [(''A'', ''a''), (''B'', ''b''), (''C'', ''c''), (''D'', ''d'')],
             correct = ''B'', correct_explanation = ''e'',
             explanations = [(''A'', ''x''), (''B'', ''y''), (''C'', ''z''), (''D'', ''w'')]\<rparr> \<and>
   (\<exists>r. parse_quiz_response (format_response ''q'' ''a'' ''b'' ''c'' ''d'' CHR ''B'' ''e'' ''x'' ''y'' ''z'' ''w'') = Some r \<and>
        map fst (options r) = [''A'', ''B'', ''C'', ''D''] \<and>
        correct r \<in> {''A'', ''B'', ''C'', ''D''})"
proof -
  have l: "CHR ''B'' \<in> set ''ABCD''" by simp
  have e: "parse_quiz_response (format_response ''q'' ''a'' ''b'' ''c'' ''d'' CHR ''B'' ''e'' ''x'' ''y'' ''z'' ''w'')
     = Some \<lparr>question = ''q'',
             options = [(''A'', ''a''), (''B'', ''b''), (''C'', ''c''), (''D'', ''d'')],
             correct = ''B'', correct_explanation = ''e'',
             explanations = [(''A'', ''x''), (''B'', ''y''), (''C'', ''z''), (''D'', ''w'')]\<rparr>"
    by code_simp
  from parse_quiz_response_well_formed[of "CHR ''B''" "''q''" "''a''" "''b''" "''c''" "''d''" "''e''" "''x''" "''y''" "''z''" "''w''"
         "format_response ''q'' ''a'' ''b'' ''c'' ''d'' CHR ''B'' ''e'' ''x'' ''y'' ''z'' ''w''"] l e
  show ?thesis by simp
qed

text \<open>
  Claim C6 reads: a text that contains no \<^verbatim>\<open>CORRECT:\<close> line is parsed to \<^verbatim>\<open>None\<close>. The
  pattern \<^verbatim>\<open>CORRECT:\s*([A-D])\<close> is not anchored to the start of a line, so it also matches
  inside \<^verbatim>\<open>INCORRECT: A\<close>: the reply below has no line that starts with \<^verbatim>\<open>CORRECT:\<close>
  (its lines start with \<^verbatim>\<open>QUESTION:\<close>, \<^verbatim>\<open>A)\<close> to \<^verbatim>\<open>D)\<close>, \<^verbatim>\<open>CORRECT_EXPLANATION:\<close> and
  \<^verbatim>\<open>A_EXPLANATION:\<close>) and is parsed to a question whose correct letter is A.
\<close>

theorem parse_quiz_response_no_correct_line_counterexample:
  "\<not> has_line_starting ''CORRECT:'' reply_without_correct_line \<and>
   parse_quiz_response reply_without_correct_line
     = Some \<lparr>question = ''q'',
             options = [(''A'', ''a''), (''B'', ''b''), (''C'', ''c''), (''D'', ''d IN'')],
             correct = ''A'', correct_explanation = ''e'',
             explanations = [(''A'', ''x''), (''B'', []), (''C'', []), (''D'', [])]\<rparr>"
  by code_simp

text \<open>
  Claim C6, amended. A text in which \<^verbatim>\<open>CORRECT:\<close> occurs nowhere, at the start of a line
  or elsewhere, is parsed to \<^verbatim>\<open>None\<close>. \<^verbatim>\<open>parse_quiz_response\<close> returns \<^verbatim>\<open>None\<close> or a
  dict on every text: no step of its body raises on a string, and the
  \<^verbatim>\<open>except Exception\<close> around the body returns \<^verbatim>\<open>None\<close>.
\<close>

theorem parse_quiz_response_no_correct_marker:
  "\<not> contains ''CORRECT:'' text \<Longrightarrow> parse_quiz_response text = None"
proof (rule ccontr)
  assume n: "\<not> contains ''CORRECT:'' text" and "parse_quiz_response text \<noteq> None"
  then obtain g where "search (match_here ''CORRECT:'' (one_letter ''ABCD'')) text = Some g"
    by (auto simp: parse_quiz_response_def Let_def split: option.splits if_splits)
  from search_literal_contains[OF this] n show False by simp
qed

text \<open>The reply in the format of the prompt with its \<^verbatim>\<open>CORRECT:\<close> line taken out.\<close>

theorem parse_quiz_response_no_correct_marker_witness:
  "\<not> contains ''CORRECT:'' reply_without_correct_marker \<and>
   parse_quiz_response reply_without_correct_marker = None"
proof -
  have n: "\<not> contains ''CORRECT:'' reply_without_correct_marker" by code_simp
  from parse_quiz_response_no_correct_marker[OF n] n show ?thesis by simp
qed

section \<open>Properties of the quiz state machine\<close>


lemma main_awaiting_question:
  assumes "awaiting_question a qs" and "\<not> check_message_limit a"
  shows "main inp a = render_quiz_question inp a"
  using assms by (simp add: main_def awaiting_question_def render_quiz_header_def)

lemma render_quiz_question_loading:
  assumes "awaiting_question a qs" and "\<not> check_message_limit a"
  shows "render_quiz_question inp a =
     (let a1 = a\<lparr>llm_requests := llm_requests a @ [QuizRequest (name (concepts qs ! current_index qs))]\<rparr>
      in case llm inp of
           ModelHTTPError \<Rightarrow> Inr (a1\<lparr>quiz_mode := False, quiz_state := None\<rparr>)
         | OtherException \<Rightarrow> Inr (a1\<lparr>quiz_mode := False, quiz_state := None\<rparr>)
         | Output text new_messages \<Rightarrow>
             (case parse_quiz_response text of
                Some parsed \<Rightarrow>
                  Inr ((increment_message_count a1)
                         \<lparr>quiz_state :=
                            Some (qs\<lparr>question := question parsed,
                                     options := options parsed,
                                     correct := correct parsed,
                                     explanations := explanations parsed,
                                     correct_explanation := correct_explanation parsed,
                                     loading := False\<rparr>)\<rparr>)
              | None \<Rightarrow> Inr (advance_quiz a1)))"
  using assms by (simp add: render_quiz_question_def awaiting_question_def Let_def)

text \<open>
  Claim C1 reads: when generating the question for concept i fails, by an error of the
  LLM call or by an unparsable reply, the concept is skipped and the quiz continues. On
  an error of the call the code ends the quiz instead: in the quiz on two concepts,
  waiting for the first question, a \<^verbatim>\<open>ModelHTTPError\<close> switches quiz mode off and clears
  the quiz state.
\<close>

theorem generation_failure_counterexample:
  "awaiting_question quiz_app (create_initial_quiz_state [example_row 1 ''firewall'', example_row 2 ''phishing'']) \<and>
   main (error_run ModelHTTPError) quiz_app =
     Inr (quiz_app\<lparr>llm_requests := [QuizRequest ''firewall''], quiz_mode := False, quiz_state := None\<rparr>)"
  by (simp add: main_def render_quiz_header_def render_quiz_question_def awaiting_question_def
        quiz_app_def start_quiz_mode_def create_initial_quiz_state_def example_app_def
        example_row_def error_run_def check_message_limit_def MAX_MESSAGES_PER_SESSION_def)

text \<open>
  Claim C1, amended. While the quiz waits for the question of concept i and the message
  budget is not used up: an unparsable reply skips the concept, and when i is not the
  last index the quiz then waits for the question of concept i + 1, with the same
  concepts, results and message count; an error of the LLM call, \<^verbatim>\<open>ModelHTTPError\<close> or any
  other exception, ends the quiz (quiz mode off, quiz state cleared).
\<close>

theorem generation_failure_skips_or_abandons:
  assumes "awaiting_question a qs" and "\<not> check_message_limit a"
  shows "(\<forall>text new_messages.
            llm inp = Output text new_messages \<and> parse_quiz_response text = None \<and>
            current_index qs + 1 < length (concepts qs) \<longrightarrow>
            (\<exists>a' qs'. main inp a = Inr a' \<and> awaiting_question a' qs' \<and>
                       current_index qs' = current_index qs + 1 \<and>
                       concepts qs' = concepts qs \<and> results qs' = results qs \<and>
                       message_count a' = message_count a)) \<and>
         (llm inp = ModelHTTPError \<or> llm inp = OtherException \<longrightarrow>
            (\<exists>a'. main inp a = Inr a' \<and> \<not> quiz_mode a' \<and> quiz_state a' = None))"
  using assms
  by (auto simp: main_awaiting_question[OF assms] render_quiz_question_loading[OF assms]
        advance_quiz_def awaiting_question_def Let_def)


text \<open>In the quiz on two concepts: an unparsable reply, and an exception of the call.\<close>

theorem generation_failure_skips_or_abandons_witness:
  "awaiting_question quiz_app (create_initial_quiz_state [example_row 1 ''firewall'', example_row 2 ''phishing'']) \<and>
   \<not> check_message_limit quiz_app \<and>
   parse_quiz_response ''garbage'' = None \<and>
   (\<exists>a' qs'. main (reply_run ''garbage'') quiz_app = Inr a' \<and> awaiting_question a' qs' \<and>
              current_index qs' = 1 \<and> results qs' = []) \<and>
   (\<exists>a'. main (error_run OtherException) quiz_app = Inr a' \<and> \<not> quiz_mode a' \<and> quiz_state a' = None)"
proof -
  let ?qs = "create_initial_quiz_state [example_row 1 ''firewall'', example_row 2 ''phishing'']"
  have w: "awaiting_question quiz_app ?qs"
    by (simp add: awaiting_question_def quiz_app_def start_quiz_mode_def
          create_initial_quiz_state_def example_app_def)
  have l: "\<not> check_message_limit quiz_app"
    by (simp add: check_message_limit_def MAX_MESSAGES_PER_SESSION_def quiz_app_def
          start_quiz_mode_def example_app_def)
  have p: "parse_quiz_response ''garbage'' = None" by code_simp
  have i: "current_index ?qs = 0" "results ?qs = []" "length (concepts ?qs) = 2"
    by (simp_all add: create_initial_quiz_state_def)
  have o: "llm (reply_run ''garbage'') = Output ''garbage'' []" "llm (error_run OtherException) = OtherException"
    by (simp_all add: reply_run_def error_run_def)
  from generation_failure_skips_or_abandons[OF w l, of "reply_run ''garbage''"]
       generation_failure_skips_or_abandons[OF w l, of "error_run OtherException"] w l p i o
  show ?thesis by auto
qed

text \<open>
  At the last index the skip moves \<^verbatim>\<open>current_index\<close> past the end of the list; the next
  run raises \<^verbatim>\<open>IndexError\<close> in \<^verbatim>\<open>render_quiz_header\<close>. Here both replies are unparsable.
\<close>

lemma unparsable_reply_at_last_index:
  "runs [reply_run ''garbage'', reply_run ''garbage'', rerun] quiz_app = Inl IndexError"
  by code_simp

lemma update_quiz_understanding_frame:
  "llm_requests (update_quiz_understanding level t a) = llm_requests a"
  "message_count (update_quiz_understanding level t a) = message_count a"
  by (simp_all add: update_quiz_understanding_def)

lemma render_quiz_result_frame:
  assumes "render_quiz_result inp a = Inr a'"
  shows "llm_requests a' = llm_requests a \<and> message_count a' = message_count a"
  using assms
  by (auto simp: render_quiz_result_def advance_quiz_def finish_quiz_def Let_def
           split: option.splits if_splits)

lemma render_quiz_question_limit:
  assumes "check_message_limit a"
  shows "render_quiz_question inp a =
           (case quiz_state a of None \<Rightarrow> Inr a
            | Some qs \<Rightarrow> Inr (a\<lparr>quiz_mode := False, quiz_state := None\<rparr>))"
  using assms by (simp add: render_quiz_question_def split: option.splits)

lemma render_understanding_rating_frame:
  "llm_requests (render_understanding_rating inp a) = llm_requests a \<and>
   message_count (render_understanding_rating inp a) = message_count a"
  by (auto simp: render_understanding_rating_def update_quiz_understanding_frame
           split: option.splits button.splits)

text \<open>
  Claim C3. Once the message count has reached the cap of 25, no run of the script calls
  \<^verbatim>\<open>agent.run\<close>: the list of requests and the message count are the same after the run,
  whatever the input. A quiz that is not showing an answer is ended before a question is
  generated, and outside quiz mode the run changes nothing: the chat input is disabled
  and a pending concept question is not asked.
\<close>

theorem message_limit_blocks_llm:
  assumes "check_message_limit a"
  shows "(\<forall>a'. main inp a = Inr a' \<longrightarrow>
            llm_requests a' = llm_requests a \<and> message_count a' = message_count a) \<and>
         (\<forall>qs. quiz_mode a \<and> \<not> awaiting_rating a \<and> quiz_state a = Some qs \<and> active qs \<and>
               \<not> answered qs \<and> current_index qs < length (concepts qs) \<longrightarrow>
               main inp a = Inr (a\<lparr>quiz_mode := False, quiz_state := None\<rparr>)) \<and>
         (\<not> quiz_mode a \<longrightarrow> main inp a = Inr a)"
proof (intro conjI allI impI)
  fix a' assume m: "main inp a = Inr a'"
  have "llm_requests a' = llm_requests a \<and> message_count a' = message_count a"
  proof (cases "quiz_mode a \<and> (case quiz_state a of None \<Rightarrow> False | Some qs \<Rightarrow> active qs)
                 \<and> \<not> awaiting_rating a")
    case True
    then obtain qs where qs: "quiz_state a = Some qs" by (auto split: option.splits)
    show ?thesis
    proof (cases "answered qs")
      case True
      with m \<open>quiz_mode a \<and> _\<close> qs have "render_quiz_result inp a = Inr a'"
        by (auto simp: main_def render_quiz_header_def split: if_splits)
      then show ?thesis by (rule render_quiz_result_frame)
    next
      case False
      with m \<open>quiz_mode a \<and> _\<close> qs have "render_quiz_question inp a = Inr a'"
        by (auto simp: main_def render_quiz_header_def split: if_splits)
      with qs show ?thesis
        by (auto simp: render_quiz_question_limit[OF assms])
    qed
  next
    case False
    with m assms show ?thesis
      by (auto simp: main_def render_understanding_rating_frame split: if_splits)
  qed
  then show "llm_requests a' = llm_requests a" and "message_count a' = message_count a"
    by simp_all
next
  fix qs
  assume "quiz_mode a \<and> \<not> awaiting_rating a \<and> quiz_state a = Some qs \<and> active qs \<and>
               \<not> answered qs \<and> current_index qs < length (concepts qs)"
  then show "main inp a = Inr (a\<lparr>quiz_mode := False, quiz_state := None\<rparr>)"
    by (simp add: main_def render_quiz_header_def render_quiz_question_limit[OF assms])
next
  assume "\<not> quiz_mode a"
  with assms show "main inp a = Inr a" by (simp add: main_def)
qed

text \<open>
  With 25 messages counted: a quiz waiting for its first question is ended although the
  LLM would reply, and a chat text is not processed.
\<close>

theorem message_limit_blocks_llm_witness:
  "check_message_limit (quiz_app\<lparr>message_count := 25\<rparr>) \<and>
   main (reply_run good_reply) (quiz_app\<lparr>message_count := 25\<rparr>)
     = Inr (quiz_app\<lparr>message_count := 25, quiz_mode := False, quiz_state := None\<rparr>) \<and>
   check_message_limit (example_app\<lparr>message_count := 25\<rparr>) \<and>
   main (chat_run ''What is a firewall?'' ''A firewall filters traffic.'') (example_app\<lparr>message_count := 25\<rparr>)
     = Inr (example_app\<lparr>message_count := 25\<rparr>) \<and>
   llm_requests (example_app\<lparr>message_count := 25\<rparr>) = []"
proof -
  have c1: "check_message_limit (quiz_app\<lparr>message_count := 25\<rparr>)"
   and c2: "check_message_limit (example_app\<lparr>message_count := 25\<rparr>)"
    by (simp_all add: check_message_limit_def MAX_MESSAGES_PER_SESSION_def)
  have q: "quiz_mode (quiz_app\<lparr>message_count := 25\<rparr>) \<and> \<not> awaiting_rating (quiz_app\<lparr>message_count := 25\<rparr>) \<and>
        quiz_state (quiz_app\<lparr>message_count := 25\<rparr>)
          = Some (create_initial_quiz_state [example_row 1 ''firewall'', example_row 2 ''phishing'']) \<and>
        active (create_initial_quiz_state [example_row 1 ''firewall'', example_row 2 ''phishing'']) \<and>
        \<not> answered (create_initial_quiz_state [example_row 1 ''firewall'', example_row 2 ''phishing'']) \<and>
        current_index (create_initial_quiz_state [example_row 1 ''firewall'', example_row 2 ''phishing''])
          < length (concepts (create_initial_quiz_state [example_row 1 ''firewall'', example_row 2 ''phishing'']))"
    by (simp add: quiz_app_def start_quiz_mode_def create_initial_quiz_state_def example_app_def)
  have n: "\<not> quiz_mode (example_app\<lparr>message_count := 25\<rparr>)"
      "llm_requests (example_app\<lparr>message_count := 25\<rparr>) = []"
    by (simp_all add: example_app_def)
  from message_limit_blocks_llm[OF c1, of "reply_run good_reply"] q
  have "main (reply_run good_reply) (quiz_app\<lparr>message_count := 25\<rparr>)
     = Inr (quiz_app\<lparr>message_count := 25, quiz_mode := False, quiz_state := None\<rparr>)"
    by simp
  moreover from message_limit_blocks_llm[OF c2, of "chat_run ''What is a firewall?'' ''A firewall filters traffic.''"] n
  have "main (chat_run ''What is a firewall?'' ''A firewall filters traffic.'') (example_app\<lparr>message_count := 25\<rparr>)
     = Inr (example_app\<lparr>message_count := 25\<rparr>)"
    by simp
  ultimately show ?thesis using c1 c2 n by simp
qed

section \<open>Properties of the quiz results\<close>



















end
